theory Spec2Isabelle
  imports Complex_Main "HOL-Library.Multiset"
begin

section \<open>Numbers and values of the host language\<close>

text \<open>
  The server is JavaScript. A JavaScript Number is an IEEE 754 double; it is modelled by
  the \<^typ>\<open>real\<close> it denotes. The arithmetic of the aggregator rounds each exact result
  to the nearest double, a tie going to the even significand (\<open>fl\<close>), with subnormal
  numbers included. Results beyond the largest double, which JavaScript turns into the
  two infinities, are not modelled. The one non-finite value the aggregator can produce
  otherwise, \<open>NaN\<close> (a bucket size of zero), is kept as a value of its own. Timestamps
  are whole milliseconds below \<open>2^53\<close>; their sums and differences are exact in doubles
  and are written without rounding.
\<close>

datatype jsnum = NaN | Fin real

text \<open>\<open>pow2 e\<close> is \<open>2^e\<close>. \<open>exponent a\<close> is the exponent of the double format for the
  magnitude \<open>a\<close>: the largest \<open>e\<close> with \<open>2^e \<le> a\<close>, kept between \<open>-1022\<close> (where the
  subnormal numbers begin) and \<open>1023\<close>.\<close>

definition pow2 :: "int \<Rightarrow> real" where
  "pow2 e = (if 0 \<le> e then 2 ^ nat e else 1 / 2 ^ nat (- e))"

primrec expUp :: "nat \<Rightarrow> int \<Rightarrow> real \<Rightarrow> int" where
  "expUp 0 e a = e"
| "expUp (Suc n) e a = (if pow2 (e + 1) \<le> a then expUp n (e + 1) a else e)"

primrec expDown :: "nat \<Rightarrow> int \<Rightarrow> real \<Rightarrow> int" where
  "expDown 0 e a = e"
| "expDown (Suc n) e a = (if a < pow2 e then expDown n (e - 1) a else e)"

definition exponent :: "real \<Rightarrow> int" where
  "exponent a = (if 1 \<le> a then expUp 1023 0 a else expDown 1022 0 a)"

text \<open>The integer nearest to \<open>y\<close>, the even one on a tie.\<close>

definition roundEven :: "real \<Rightarrow> int" where
  "roundEven y =
     (let n = \<lfloor>y\<rfloor>; d = y - of_int n
      in if d < 1 / 2 then n else if 1 / 2 < d then n + 1 else if even n then n else n + 1)"

text \<open>The double nearest to \<open>x\<close>: \<open>x\<close> rounded to a multiple of \<open>2^(e - 52)\<close>, which leaves a
  significand of 53 bits.\<close>

definition fl :: "real \<Rightarrow> real" where
  "fl x = (let q = pow2 (exponent \<bar>x\<bar> - 52) in of_int (roundEven (x / q)) * q)"

text \<open>\<open>a / b\<close> for \<open>b\<close> other than zero, \<open>a * b\<close> and \<open>a + b\<close> on Numbers.\<close>

definition js_div :: "real \<Rightarrow> real \<Rightarrow> real" where
  "js_div a b = fl (a / b)"

definition js_mul :: "real \<Rightarrow> real \<Rightarrow> real" where
  "js_mul a b = fl (a * b)"

definition js_add :: "real \<Rightarrow> real \<Rightarrow> real" where
  "js_add a b = fl (a + b)"

text \<open>\<open>Math.round(x)\<close>: the integer nearest to the double \<open>x\<close>, a tie going to the larger
  one. The result is exact.\<close>

definition Math_round :: "real \<Rightarrow> real" where
  "Math_round x = of_int \<lfloor>x + 1 / 2\<rfloor>"

text \<open>Line 51: the quotient, rounded to a double, goes through \<open>Math.round\<close>, and the
  product with the bucket size is rounded to a double again. Dividing by zero gives an
  infinity or \<open>NaN\<close>, \<open>Math.round\<close> keeps it, and multiplying it by zero gives \<open>NaN\<close>.\<close>

definition bucketPrice :: "real \<Rightarrow> real \<Rightarrow> jsnum" where
  "bucketPrice price bucketSize =
     (if bucketSize = 0 then NaN
      else Fin (js_mul (Math_round (js_div price bucketSize)) bucketSize))"

text \<open>
  \<open>x.toFixed(8)\<close>, which works on the exact value of the double. The string is
  represented by what determines it: \<open>Fixed neg n\<close> is
  the sign (\<open>-\<close> when \<open>neg\<close>) followed by the decimal digits of \<open>n\<close> with the point
  before the last eight; \<open>n\<close> is the integer nearest to \<open>|x| * 10^8\<close>, the larger one on a
  tie. From \<open>10^21\<close> on \<open>toFixed\<close> falls back to the Number's own string, \<open>Plain x\<close>, and
  \<open>NaN\<close> prints as \<open>NaN\<close>.
\<close>

datatype fixed8 = NaNString | Plain real | Fixed bool int

definition toFixed8 :: "jsnum \<Rightarrow> fixed8" where
  "toFixed8 v =
     (case v of
        NaN \<Rightarrow> NaNString
      | Fin x \<Rightarrow>
          (let neg = x < 0; a = (if neg then - x else x)
           in if 10 ^ 21 \<le> a then Plain x else Fixed neg \<lfloor>a * 10 ^ 8 + 1 / 2\<rfloor>))"

section \<open>The trade store\<close>

text \<open>One row of the table \<open>trades\<close> (lines 23 to 34); \<open>id\<close> is the primary key.\<close>

record trade =
  id' :: string
  exchange :: string
  symbol :: string
  price :: real
  qty :: real
  side :: string
  ts :: real

text \<open>The table is the list of its rows, in the order in which they were inserted.\<close>

type_synonym store = "trade list"

text \<open>
  An SQL \<open>INSERT\<close> into the table. When the primary key is taken, the statement's
  conflict clause decides: a plain \<open>INSERT\<close> fails with a constraint error, which the
  database driver throws, and \<open>INSERT OR IGNORE\<close> skips the row.
\<close>

datatype conflict = OrAbort | OrIgnore

datatype sql_error = ConstraintPrimaryKey

definition sql_insert :: "conflict \<Rightarrow> store \<Rightarrow> trade \<Rightarrow> sql_error + store" where
  "sql_insert c db t =
     (if id' t \<in> id' ` set db
      then (case c of OrAbort \<Rightarrow> Inl ConstraintPrimaryKey | OrIgnore \<Rightarrow> Inr db)
      else Inr (db @ [t]))"

text \<open>\<open>insertTrade\<close>, lines 37 to 40: the statement is \<open>INSERT OR IGNORE\<close>.\<close>

definition insertTrade :: "store \<Rightarrow> trade \<Rightarrow> sql_error + store" where
  "insertTrade db t = sql_insert OrIgnore db t"

text \<open>What the store holds under an id.\<close>

definition stored :: "store \<Rightarrow> string \<Rightarrow> trade list" where
  "stored db i = filter (\<lambda>r. id' r = i) db"

section \<open>The cluster aggregator\<close>

record bucket =
  bprice :: jsnum
  volume :: real
  lastTs :: real

text \<open>A JavaScript \<open>Map\<close>: the entries in the order their keys were first set.
  \<open>Map_set\<close> replaces the value of a key in place and appends a new key.\<close>

type_synonym buckets = "(fixed8 \<times> bucket) list"

fun Map_get :: "buckets \<Rightarrow> fixed8 \<Rightarrow> bucket option" where
  "Map_get [] k = None"
| "Map_get ((k', v) # m) k = (if k' = k then Some v else Map_get m k)"

fun Map_set :: "buckets \<Rightarrow> fixed8 \<Rightarrow> bucket \<Rightarrow> buckets" where
  "Map_set [] k v = [(k, v)]"
| "Map_set ((k', v') # m) k v = (if k' = k then (k, v) # m else (k', v') # Map_set m k v)"

text \<open>The body of the loop of lines 49 to 57, for one row.\<close>

definition addRow :: "real \<Rightarrow> buckets \<Rightarrow> trade \<Rightarrow> buckets" where
  "addRow bucketSize m r =
     (let pb = bucketPrice (price r) bucketSize;
          key = toFixed8 pb;
          v = (case Map_get m key of
                 Some b \<Rightarrow> b
               | None \<Rightarrow> \<lparr>bprice = pb, volume = 0, lastTs = 0\<rparr>);
          v = v\<lparr>volume := js_add (volume v) (qty r)\<rparr>;
          v = v\<lparr>lastTs := max (lastTs v) (ts r)\<rparr>
      in Map_set m key v)"

text \<open>\<open>arr.slice(0, limit)\<close>: the limit is truncated to an integer; a negative one counts
  from the end of the array.\<close>

definition toInteger :: "real \<Rightarrow> int" where
  "toInteger x = (if 0 \<le> x then \<lfloor>x\<rfloor> else \<lceil>x\<rceil>)"

definition slice0 :: "'a list \<Rightarrow> real \<Rightarrow> 'a list" where
  "slice0 xs limit =
     (let k = toInteger limit; n = int (length xs);
          final = (if k < 0 then max (n + k) 0 else min k n)
      in take (nat final) xs)"

text \<open>The query of line 46. SQLite answers it from the index \<open>idx_trades_symbol_ts\<close> on
  \<open>(symbol, ts)\<close> of line 33: the rows come in the order of \<open>ts\<close>, and rows of one \<open>ts\<close> in
  the order in which they were inserted (\<open>sort_key\<close> is stable).\<close>

definition selectRows :: "store \<Rightarrow> string \<Rightarrow> string \<Rightarrow> real \<Rightarrow> trade list" where
  "selectRows db sy ex since =
     sort_key ts (filter (\<lambda>r. symbol r = sy \<and> exchange r = ex \<and> since \<le> ts r) db)"

text \<open>
  \<open>computeClusters\<close>, lines 43 to 60. \<open>now\<close> is what \<open>Date.now()\<close> returns on line 45. An
  argument left out (\<open>None\<close>) takes the default of the signature. \<open>Array.prototype.sort\<close>
  is stable, and so is \<open>sort_key\<close>; the comparator \<open>b.volume - a.volume\<close> orders by
  volume, the larger first.
\<close>

definition dflt :: "'a \<Rightarrow> 'a option \<Rightarrow> 'a" where
  "dflt d v = (case v of None \<Rightarrow> d | Some x \<Rightarrow> x)"

text \<open>Lines 48 to 57 and \<open>Array.from(buckets.values())\<close>: the buckets of the rows, in
  the order of their first row.\<close>

definition bucketsOf :: "real \<Rightarrow> trade list \<Rightarrow> bucket list" where
  "bucketsOf bucketSize rows = map snd (foldl (addRow bucketSize) [] rows)"

definition computeClusters ::
  "real \<Rightarrow> store \<Rightarrow> string \<Rightarrow> string \<Rightarrow> real option \<Rightarrow> real option \<Rightarrow> real option
     \<Rightarrow> bucket list" where
  "computeClusters now db sy ex periodMs' bucketSize' limit' =
     (let periodMs = dflt 3600000 periodMs';
          bucketSize = dflt 1 bucketSize';
          limit = dflt 100 limit';
          since = now - periodMs;
          rows = selectRows db sy ex since
      in if rows = [] then []
         else slice0 (sort_key (\<lambda>b. - volume b) (bucketsOf bucketSize rows)) limit)"

section \<open>Values of request bodies and exchange payloads\<close>

text \<open>
  A scalar JSON value, or \<open>undefined\<close> for a field that is absent. Arrays and objects
  in the place of a scalar field are not modelled.
\<close>

datatype json = JUndefined | JNull | JBool bool | JNum real | JStr string

fun truthy :: "json \<Rightarrow> bool" where
  "truthy JUndefined = False"
| "truthy JNull = False"
| "truthy (JBool b) = b"
| "truthy (JNum x) = (x \<noteq> 0)"
| "truthy (JStr s) = (s \<noteq> [])"

text \<open>\<open>a || b\<close> on values.\<close>

definition js_or :: "json \<Rightarrow> json \<Rightarrow> json" where
  "js_or a b = (if truthy a then a else b)"


section \<open>The world outside the program\<close>

text \<open>The calls the server makes to the exchanges, as the log of a run records them.\<close>

datatype request =
    BinanceAggTrades string real real real
  | OKXTrades string real
  | BybitTrades string real

datatype event = Attempt request nat | Backoff real | Pause real

datatype fetch_error = FetchFailed

text \<open>What an exchange returned where the program expects a list: nothing or a falsy
  value, a truthy value that cannot be iterated, or a list of objects.\<close>

datatype 'r items = Missing | NotIterable | Items "'r list"

text \<open>The fields of one element of each exchange's list that the program reads.\<close>

record binance_raw =
  b_a :: json
  b_aggregateId :: json
  b_tradeId :: json
  b_p :: json
  b_q :: json
  b_m :: json
  b_T :: json

record okx_raw =
  o_ts :: json
  o_tradeId :: json
  o_p :: json
  o_sz :: json
  o_qty :: json
  o_side :: json

record bybit_raw =
  y_trade_time_ms :: json
  y_price :: json
  y_qty :: json
  y_size :: json
  y_side :: json

text \<open>
  Everything the program reads from outside is a parameter of the model, and the
  theorems hold for every choice of it:
  \<^item> \<open>Date_now k\<close> and \<open>Math_random k\<close>: the result of the \<open>k\<close>-th call of \<open>Date.now()\<close>
    and of \<open>Math.random()\<close> of a run;
  \<^item> \<open>NumberOfString\<close>: \<open>Number(s)\<close> for a string, \<open>NaN\<close> when it is not numeric;
  \<^item> \<open>NumberToString\<close>: the string of a Number in a template literal;
  \<^item> \<open>parseFloat\<close>: the Number read from a payload field; a payload whose field does
    not parse is outside the model, as rows hold finite numbers;
  \<^item> \<open>columnNumber\<close>: the number the column \<open>ts\<close>, of integer affinity, holds for a
    numeric string bound to it; other strings are outside the model;
  \<^item> the three connectors of lines 63 to 82: what the exchange answers to a request at
    its \<open>k\<close>-th attempt, \<open>Inl FetchFailed\<close> when \<open>axios.get\<close> rejects.
\<close>

record env =
  Date_now :: "nat \<Rightarrow> real"
  Math_random :: "nat \<Rightarrow> real"
  NumberOfString :: "string \<Rightarrow> jsnum"
  NumberToString :: "real \<Rightarrow> string"
  parseFloat :: "json \<Rightarrow> real"
  columnNumber :: "string \<Rightarrow> real"
  fetchBinanceAggTrades :: "string \<Rightarrow> real \<Rightarrow> real \<Rightarrow> real \<Rightarrow> nat \<Rightarrow> fetch_error + binance_raw list option"
  fetchOKXTrades :: "string \<Rightarrow> real \<Rightarrow> nat \<Rightarrow> fetch_error + okx_raw items"
  fetchBybitTrades :: "string \<Rightarrow> real \<Rightarrow> nat \<Rightarrow> fetch_error + bybit_raw items"

text \<open>The state a run changes: the table, how often the clock and the random generator
  were read, and the log of calls and waits.\<close>

record world =
  database :: store
  clockReads :: nat
  randomDraws :: nat
  trace :: "event list"

definition now_read :: "env \<Rightarrow> world \<Rightarrow> real \<times> world" where
  "now_read E w = (Date_now E (clockReads w), w\<lparr>clockReads := Suc (clockReads w)\<rparr>)"

definition random_draw :: "env \<Rightarrow> world \<Rightarrow> real \<times> world" where
  "random_draw E w = (Math_random E (randomDraws w), w\<lparr>randomDraws := Suc (randomDraws w)\<rparr>)"

definition emit :: "event list \<Rightarrow> world \<Rightarrow> world" where
  "emit evs w = w\<lparr>trace := trace w @ evs\<rparr>"

text \<open>\<open>n || alt\<close> where the alternative reads the world; it is evaluated only when \<open>n\<close>
  is falsy.\<close>

definition orElse :: "jsnum \<Rightarrow> (world \<Rightarrow> real \<times> world) \<Rightarrow> world \<Rightarrow> real \<times> world" where
  "orElse n alt w = (case n of NaN \<Rightarrow> alt w | Fin x \<Rightarrow> if x = 0 then alt w else (x, w))"

text \<open>\<open>Number(v)\<close> and the string of a value in a template literal.\<close>

fun Number_js :: "env \<Rightarrow> json \<Rightarrow> jsnum" where
  "Number_js E JUndefined = NaN"
| "Number_js E JNull = Fin 0"
| "Number_js E (JBool b) = Fin (if b then 1 else 0)"
| "Number_js E (JNum x) = Fin x"
| "Number_js E (JStr s) = NumberOfString E s"

fun String_js :: "env \<Rightarrow> json \<Rightarrow> string" where
  "String_js E JUndefined = ''undefined''"
| "String_js E JNull = ''null''"
| "String_js E (JBool b) = (if b then ''true'' else ''false'')"
| "String_js E (JNum x) = NumberToString E x"
| "String_js E (JStr s) = s"

text \<open>
  Binding a value to the insert statement of line 39: the database driver binds
  numbers, strings and \<open>null\<close>, and throws a \<open>TypeError\<close> for a boolean. \<open>tsColumn\<close> is
  what the column \<open>ts\<close> then holds.
\<close>

fun bindable :: "json \<Rightarrow> bool" where
  "bindable (JBool b) = False"
| "bindable v = True"

fun tsColumn :: "env \<Rightarrow> json \<Rightarrow> real" where
  "tsColumn E (JNum x) = x"
| "tsColumn E (JStr s) = columnNumber E s"
| "tsColumn E v = 0"

section \<open>Retrying a request\<close>

text \<open>
  \<open>pRetry(f, {retries, minTimeout})\<close> of the package \<open>p-retry\<close>, which the server
  requires on line 13: the operation is run; when it fails and a retry is left, the
  next timeout is waited and the operation is run again; \<open>retries\<close> counts the runs
  after the first one. The timeouts are \<open>minTimeout * 2^i\<close> for \<open>i\<close> from \<open>0\<close>, and
  \<open>minTimeout\<close> is 1000 when the caller gives none. \<open>f k\<close> is the outcome of the
  \<open>k\<close>-th run, counted from 1.
\<close>

definition timeouts :: "nat \<Rightarrow> real \<Rightarrow> real list" where
  "timeouts retries minTimeout = map (\<lambda>i. minTimeout * 2 ^ i) [0..<retries]"

fun retryFrom ::
  "request \<Rightarrow> (nat \<Rightarrow> fetch_error + 'a) \<Rightarrow> real list \<Rightarrow> nat \<Rightarrow> (fetch_error + 'a) \<times> event list" where
  "retryFrom rq f [] k = (f k, [Attempt rq k])"
| "retryFrom rq f (d # ds) k =
     (case f k of
        Inr v \<Rightarrow> (Inr v, [Attempt rq k])
      | Inl e \<Rightarrow> (let (r, evs) = retryFrom rq f ds (Suc k) in (r, Attempt rq k # Backoff d # evs)))"

definition pRetry ::
  "request \<Rightarrow> (nat \<Rightarrow> fetch_error + 'a) \<Rightarrow> nat \<Rightarrow> real option \<Rightarrow> (fetch_error + 'a) \<times> event list" where
  "pRetry rq f retries minTimeout = retryFrom rq f (timeouts retries (dflt 1000 minTimeout)) 1"

section \<open>Normalising payloads\<close>

text \<open>What the \<open>try\<close> block of the backfill handler can catch.\<close>

datatype exn = Rejected fetch_error | TypeError | RangeError | SqlFailed sql_error

text \<open>Lines 100 to 108. The random number is drawn only when the three identifiers
  are falsy, and the clock is read only when \<open>t.T\<close> is. A truthy \<open>t.T\<close> is put into the
  trade as it was received, and \<open>binanceBinds\<close> tells whether the statement can bind it.\<close>

definition binanceBinds :: "binance_raw \<Rightarrow> bool" where
  "binanceBinds t = (if truthy (b_T t) then bindable (b_T t) else True)"

definition binanceTrade :: "env \<Rightarrow> string \<Rightarrow> binance_raw \<Rightarrow> world \<Rightarrow> trade \<times> world" where
  "binanceTrade E sy t w =
     (let known = js_or (js_or (b_a t) (b_aggregateId t)) (b_tradeId t);
          (suffix, w1) = (if truthy known then (String_js E known, w)
                          else (let (x, w') = random_draw E w in (NumberToString E x, w')));
          (tm, w2) = (if truthy (b_T t) then (tsColumn E (b_T t), w1) else now_read E w1)
      in (\<lparr>id' = sy @ ''-binance-'' @ suffix,
           exchange = ''binance'',
           symbol = sy,
           price = parseFloat E (b_p t),
           qty = parseFloat E (b_q t),
           side = (if b_m t = JBool True then ''sell'' else ''buy''),
           ts = tm\<rparr>, w2))"

text \<open>Lines 122 to 130.\<close>

definition okxTrade :: "env \<Rightarrow> string \<Rightarrow> okx_raw \<Rightarrow> world \<Rightarrow> trade \<times> world" where
  "okxTrade E sy t w =
     (let known = js_or (o_ts t) (o_tradeId t);
          (suffix, w1) = (if truthy known then (String_js E known, w)
                          else (let (x, w') = random_draw E w in (NumberToString E x, w')));
          (tm, w2) = orElse (Number_js E (o_ts t)) (now_read E) w1
      in (\<lparr>id' = sy @ ''-okx-'' @ suffix,
           exchange = ''okx'',
           symbol = sy,
           price = parseFloat E (o_p t),
           qty = parseFloat E (js_or (js_or (o_sz t) (o_qty t)) (JNum 0)),
           side = (if o_side t = JStr ''sell'' \<or> o_side t = JStr ''S'' then ''sell'' else ''buy''),
           ts = tm\<rparr>, w2))"

text \<open>Lines 138 to 146; \<open>t.trade_time_ms\<close> is bound as it was received.\<close>

definition bybitBinds :: "bybit_raw \<Rightarrow> bool" where
  "bybitBinds t = (if truthy (y_trade_time_ms t) then bindable (y_trade_time_ms t) else True)"

definition bybitTrade :: "env \<Rightarrow> string \<Rightarrow> bybit_raw \<Rightarrow> world \<Rightarrow> trade \<times> world" where
  "bybitTrade E sy t w =
     (let (suffix, w1) = (if truthy (y_trade_time_ms t) then (String_js E (y_trade_time_ms t), w)
                          else (let (x, w') = random_draw E w in (NumberToString E x, w')));
          (tm, w2) = (if truthy (y_trade_time_ms t) then (tsColumn E (y_trade_time_ms t), w1)
                      else now_read E w1)
      in (\<lparr>id' = sy @ ''-bybit-'' @ suffix,
           exchange = ''bybit'',
           symbol = sy,
           price = parseFloat E (y_price t),
           qty = parseFloat E (js_or (js_or (y_qty t) (y_size t)) (JNum 0)),
           side = (if y_side t = JStr ''Sell'' then ''sell'' else ''buy''),
           ts = tm\<rparr>, w2))"

text \<open>The loops \<open>for (const t of ...)\<close>: each element is normalised and inserted; an
  insert that throws, because a value cannot be bound (\<open>binds\<close>) or because the statement
  fails, ends the loop.\<close>

fun insertEach ::
  "('r \<Rightarrow> world \<Rightarrow> trade \<times> world) \<Rightarrow> ('r \<Rightarrow> bool) \<Rightarrow> 'r list \<Rightarrow> world
     \<Rightarrow> exn option \<times> world" where
  "insertEach mk binds [] w = (None, w)"
| "insertEach mk binds (t # rest) w =
     (let (tr, w1) = mk t w
      in if \<not> binds t then (Some TypeError, w1)
         else case insertTrade (database w1) tr of
                Inl e \<Rightarrow> (Some (SqlFailed e), w1)
              | Inr db' \<Rightarrow> insertEach mk binds rest (w1\<lparr>database := db'\<rparr>))"

section \<open>The backfill handler\<close>

text \<open>\<open>new Date(t).toISOString()\<close> throws a \<open>RangeError\<close> unless \<open>t\<close> is a time value, that
  is, at most \<open>8.64 * 10^15\<close> ms from the epoch.\<close>

definition validDate :: "real \<Rightarrow> bool" where
  "validDate t = (\<bar>t\<bar> \<le> 8640000000000000)"

text \<open>One pass of the loop of lines 94 to 114, for the window that starts at \<open>s\<close>: the
  log line 96, which formats both ends of the window as dates, the request with its
  retries, the inserts, and the pause of 300 ms. A rejection of \<open>pRetry\<close> is not caught
  inside the loop; it leaves the pass as an exception, as every other exception does.\<close>

definition binanceWindow :: "env \<Rightarrow> string \<Rightarrow> real \<Rightarrow> real \<Rightarrow> world \<Rightarrow> exn option \<times> world" where
  "binanceWindow E sy end s w =
     (let windowMs = 60 * 60 * 1000;
          e = min end (s + windowMs - 1)
      in if \<not> (validDate s \<and> validDate e) then (Some RangeError, w)
         else
           (let (r, evs) = pRetry (BinanceAggTrades sy s e 1000)
                              (fetchBinanceAggTrades E sy s e 1000) 3 (Some 500);
                w1 = emit evs w
            in case r of
                 Inl err \<Rightarrow> (Some (Rejected err), w1)
               | Inr data \<Rightarrow>
                   (case (case data of
                            None \<Rightarrow> (None, w1)
                          | Some l \<Rightarrow>
                              if l \<noteq> [] then insertEach (binanceTrade E sy) binanceBinds l w1
                              else (None, w1)) of
                      (Some x, w2) \<Rightarrow> (Some x, w2)
                    | (None, w2) \<Rightarrow> (None, emit [Pause 300] w2))))"

text \<open>The loop \<open>for (let s = start; s < end; s += windowMs)\<close>. An exception in a pass
  ends the loop.\<close>

function binanceLoop :: "env \<Rightarrow> string \<Rightarrow> real \<Rightarrow> real \<Rightarrow> world \<Rightarrow> exn option \<times> world" where
  "binanceLoop E sy end s w =
     (if s < end
      then (case binanceWindow E sy end s w of
              (Some x, w') \<Rightarrow> (Some x, w')
            | (None, w') \<Rightarrow> binanceLoop E sy end (s + 60 * 60 * 1000) w')
      else (None, w))"
  by pat_completeness auto
termination
proof (relation "measure (\<lambda>(E, sy, end, s, w). nat \<lceil>(end - s) / 3600000\<rceil>)")
  show "wf (measure (\<lambda>(E, sy, end, s, w). nat \<lceil>(end - s) / 3600000\<rceil>))"
    by simp
next
  fix E :: env and sy :: string and "end" s :: real and w w' :: world
    and x :: "exn option \<times> world" and y :: "exn option"
  assume lt: "s < end"
  have "(end - (s + 60 * 60 * 1000)) / 3600000 = (end - s) / 3600000 - 1"
    by (simp add: field_simps)
  then have "\<lceil>(end - (s + 60 * 60 * 1000)) / 3600000\<rceil> = \<lceil>(end - s) / 3600000\<rceil> - 1"
    by (simp only: ceiling_diff_one)
  moreover have "0 < \<lceil>(end - s) / 3600000\<rceil>"
    using lt by (simp add: ceiling_less_iff)
  ultimately show
    "((E, sy, end, s + 60 * 60 * 1000, w'), (E, sy, end, s, w))
       \<in> measure (\<lambda>(E, sy, end, s, w). nat \<lceil>(end - s) / 3600000\<rceil>)"
    by simp
qed

declare binanceLoop.simps [simp del]

text \<open>\<open>symbol.replace(/USDT$/i, '-USDT-SWAP')\<close>, line 118.\<close>

definition isUSDT :: "string \<Rightarrow> bool" where
  "isUSDT s =
     (case s of
        [c1, c2, c3, c4] \<Rightarrow>
          (c1 = CHR ''U'' \<or> c1 = CHR ''u'') \<and> (c2 = CHR ''S'' \<or> c2 = CHR ''s'') \<and>
          (c3 = CHR ''D'' \<or> c3 = CHR ''d'') \<and> (c4 = CHR ''T'' \<or> c4 = CHR ''t'')
      | _ \<Rightarrow> False)"

definition okxInstId :: "string \<Rightarrow> string" where
  "okxInstId sy =
     (if isUSDT (drop (length sy - 4) sy) then take (length sy - 4) sy @ ''-USDT-SWAP'' else sy)"

text \<open>Lines 115 to 133. Every value of an OKX trade is a string or a number, which the
  statement binds.\<close>

definition okxBackfill :: "env \<Rightarrow> string \<Rightarrow> world \<Rightarrow> exn option \<times> world" where
  "okxBackfill E sy w =
     (let instId = okxInstId sy;
          (r, evs) = pRetry (OKXTrades instId 100) (fetchOKXTrades E instId 100) 2 None;
          w1 = emit evs w
      in case r of
           Inl err \<Rightarrow> (Some (Rejected err), w1)
         | Inr data \<Rightarrow>
             (case data of
                Missing \<Rightarrow> (None, w1)
              | NotIterable \<Rightarrow> (Some TypeError, w1)
              | Items l \<Rightarrow> insertEach (okxTrade E sy) (\<lambda>t. True) l w1))"

text \<open>Lines 134 to 150; \<open>fetchBybitTrades\<close> is called with its default limit of 200.\<close>

definition bybitBackfill :: "env \<Rightarrow> string \<Rightarrow> world \<Rightarrow> exn option \<times> world" where
  "bybitBackfill E sy w =
     (let (r, evs) = pRetry (BybitTrades sy 200) (fetchBybitTrades E sy 200) 2 None;
          w1 = emit evs w
      in case r of
           Inl err \<Rightarrow> (Some (Rejected err), w1)
         | Inr data \<Rightarrow>
             (case data of
                Missing \<Rightarrow> (None, w1)
              | NotIterable \<Rightarrow> (Some TypeError, w1)
              | Items l \<Rightarrow> insertEach (bybitTrade E sy) bybitBinds l w1))"

text \<open>The body of \<open>POST /api/backfill\<close>. \<open>symbol\<close> and \<open>exchange\<close> are strings or absent;
  \<open>startTs\<close> and \<open>endTs\<close> are any scalar.\<close>

record backfill_body =
  req_symbol :: "string option"
  req_exchange :: "string option"
  startTs :: json
  endTs :: json

text \<open>The three answers of the handler: status 200 with \<open>{ok: true}\<close>, status 400 and
  status 500.\<close>

datatype response = Ok | BadRequest | ServerError

text \<open>Lines 88 and 89.\<close>

definition backfillRange :: "env \<Rightarrow> backfill_body \<Rightarrow> world \<Rightarrow> (real \<times> real) \<times> world" where
  "backfillRange E b w =
     (let (start, w1) = orElse (Number_js E (startTs b))
                          (\<lambda>w. let (n, w') = now_read E w in (n - 24 * 3600 * 1000, w')) w;
          (end, w2) = orElse (Number_js E (endTs b)) (now_read E) w1
      in ((start, end), w2))"

text \<open>The handler of lines 85 to 156. An exchange that is none of the three names runs
  no branch of the \<open>if\<close> chain and reaches line 151.\<close>

definition backfill :: "env \<Rightarrow> backfill_body \<Rightarrow> world \<Rightarrow> response \<times> world" where
  "backfill E b w =
     (case (req_symbol b, req_exchange b) of
        (Some sy, Some ex) \<Rightarrow>
          if sy = [] \<or> ex = [] then (BadRequest, w)
          else
            (let ((start, end), w1) = backfillRange E b w;
                 (x, w2) =
                   (if ex = ''binance'' then binanceLoop E sy end start w1
                    else if ex = ''okx'' then okxBackfill E sy w1
                    else if ex = ''bybit'' then bybitBackfill E sy w1
                    else (None, w1))
             in case x of None \<Rightarrow> (Ok, w2) | Some e \<Rightarrow> (ServerError, w2))
      | _ \<Rightarrow> (BadRequest, w))"

section \<open>The query handler\<close>







section \<open>Auxiliary notions for the proofs\<close>

text \<open>The key of a row in the \<open>Map\<close> of the aggregator, the rows read that have a given
  key, in the order in which they were read, and the sum of a list of quantities as the
  loop forms it: from the left, each addition rounded to a double.\<close>

definition keyOf :: "real \<Rightarrow> trade \<Rightarrow> fixed8" where
  "keyOf bucketSize r = toFixed8 (bucketPrice (price r) bucketSize)"

fun rowsOfKey :: "real \<Rightarrow> trade list \<Rightarrow> fixed8 \<Rightarrow> trade list" where
  "rowsOfKey bucketSize [] k = []"
| "rowsOfKey bucketSize (r # rows) k =
     (if keyOf bucketSize r = k then r # rowsOfKey bucketSize rows k
      else rowsOfKey bucketSize rows k)"

definition flSum :: "real list \<Rightarrow> real" where
  "flSum xs = foldl js_add 0 xs"

text \<open>The invariant of the aggregation loop: the keys of the \<open>Map\<close> are the keys of the
  rows read, each once, and the entry of a key holds the bucket price of the first row
  of that key and the sum of the quantities of all its rows.\<close>

definition filed :: "real \<Rightarrow> trade list \<Rightarrow> buckets \<Rightarrow> bool" where
  "filed bs rows m \<longleftrightarrow>
     distinct (map fst m) \<and> fst ` set m = keyOf bs ` set rows \<and>
     (\<forall>(k, b) \<in> set m.
        bprice b = bucketPrice (price (hd (rowsOfKey bs rows k))) bs \<and>
        volume b = flSum (map qty (rowsOfKey bs rows k)))"

text \<open>A function that builds a trade is quiet when it neither writes to the table nor
  adds to the log; the request and the connector call of the window that starts at \<open>s\<close>.\<close>

definition quiet :: "('r \<Rightarrow> world \<Rightarrow> trade \<times> world) \<Rightarrow> bool" where
  "quiet mk \<longleftrightarrow> (\<forall>t w. trace (snd (mk t w)) = trace w \<and> database (snd (mk t w)) = database w)"

definition binanceRequest :: "string \<Rightarrow> real \<Rightarrow> real \<Rightarrow> request" where
  "binanceRequest sy end s = BinanceAggTrades sy s (min end (s + 3600000 - 1)) 1000"

definition binanceFetch :: "env \<Rightarrow> string \<Rightarrow> real \<Rightarrow> real \<Rightarrow> nat \<Rightarrow> fetch_error + binance_raw list option" where
  "binanceFetch E sy end s = fetchBinanceAggTrades E sy s (min end (s + 3600000 - 1)) 1000"

section \<open>What a run logs\<close>

text \<open>The log of a request whose first \<open>n\<close> runs fail: the runs are numbered from \<open>k\<close>,
  and the \<open>i\<close>-th failure is followed by a wait of \<open>minTimeout * 2^i\<close> ms before the next
  run. It holds \<open>n + 1\<close> runs.\<close>

definition retryEvents :: "request \<Rightarrow> real \<Rightarrow> nat \<Rightarrow> nat \<Rightarrow> event list" where
  "retryEvents rq minTimeout k n =
     concat (map (\<lambda>i. [Attempt rq (k + i), Backoff (minTimeout * 2 ^ i)]) [0..<n]) @ [Attempt rq (k + n)]"

definition isAttempt :: "event \<Rightarrow> bool" where
  "isAttempt e = (case e of Attempt rq k \<Rightarrow> True | _ \<Rightarrow> False)"

section \<open>Example inputs\<close>

text \<open>Stores used to evaluate the aggregator: the three trades of the bucketing example,
  two trades a billionth apart, the later one inserted first, and three trades of
  volumes 5, 20 and 1. A decimal that is not a double stands for the double nearest to
  it, as it does in a program text.\<close>

definition exTrade :: "string \<Rightarrow> real \<Rightarrow> real \<Rightarrow> real \<Rightarrow> trade" where
  "exTrade i p q t =
     \<lparr>id' = i, exchange = ''binance'', symbol = ''BTCUSDT'', price = p, qty = q, side = ''buy'', ts = t\<rparr>"

definition bucketingDb :: store where
  "bucketingDb = [exTrade ''a'' (fl 100.2) 1 900, exTrade ''b'' (fl 100.4) 1 910,
                  exTrade ''c'' (fl 100.6) 1 920]"

definition tinyDb :: store where
  "tinyDb = [exTrade ''b'' (fl (2 / 10 ^ 9)) 1 910, exTrade ''a'' (fl (1 / 10 ^ 9)) 1 900]"

definition rankingDb :: store where
  "rankingDb = [exTrade ''a'' 10 5 900, exTrade ''b'' 20 20 910, exTrade ''c'' 30 1 920]"

text \<open>
  Worlds used to evaluate the handlers. In \<open>env1\<close> the Binance window that starts at
  1000 returns one trade, every request for the window that starts at 3601000 fails,
  and any other window returns another trade. In \<open>env2\<close> a Binance request succeeds at
  its fourth run and an OKX request at its third.
\<close>

definition world0 :: world where
  "world0 = \<lparr>database = [], clockReads = 0, randomDraws = 0, trace = []\<rparr>"

definition rawA :: binance_raw where
  "rawA = \<lparr>b_a = JNum 1, b_aggregateId = JUndefined, b_tradeId = JUndefined, b_p = JNum 100,
           b_q = JNum 2, b_m = JBool True, b_T = JNum 5000\<rparr>"

definition rawC :: binance_raw where
  "rawC = \<lparr>b_a = JNum 3, b_aggregateId = JUndefined, b_tradeId = JUndefined, b_p = JNum 101,
           b_q = JNum 4, b_m = JBool False, b_T = JNum 7205000\<rparr>"

definition tradeA :: trade where
  "tradeA = \<lparr>id' = ''BTCUSDT-binance-1'', exchange = ''binance'', symbol = ''BTCUSDT'', price = 100,
             qty = 2, side = ''sell'', ts = 5000\<rparr>"

definition tradeC :: trade where
  "tradeC = \<lparr>id' = ''BTCUSDT-binance-3'', exchange = ''binance'', symbol = ''BTCUSDT'', price = 101,
             qty = 4, side = ''buy'', ts = 7205000\<rparr>"

definition env1 :: env where
  "env1 = \<lparr>Date_now = (\<lambda>k. 100000000 + of_nat k), Math_random = (\<lambda>k. 1 / 2),
           NumberOfString = (\<lambda>s. if s = ''0'' then Fin 0 else NaN),
           NumberToString = (\<lambda>x. if x = 1 then ''1'' else if x = 3 then ''3'' else ''0.5''),
           parseFloat = (\<lambda>v. case v of JNum x \<Rightarrow> x | _ \<Rightarrow> 1),
           columnNumber = (\<lambda>s. 1),
           fetchBinanceAggTrades = (\<lambda>sy s e l k.
              if s = 1000 then Inr (Some [rawA])
              else if s = 3601000 then Inl FetchFailed
              else Inr (Some [rawC])),
           fetchOKXTrades = (\<lambda>i l k. Inl FetchFailed),
           fetchBybitTrades = (\<lambda>sy l k. Inl FetchFailed)\<rparr>"

definition env2 :: env where
  "env2 = env1\<lparr>fetchBinanceAggTrades := (\<lambda>sy s e l k. if k < 4 then Inl FetchFailed else Inr (Some [])),
               fetchOKXTrades := (\<lambda>i l k. if k < 3 then Inl FetchFailed else Inr Missing)\<rparr>"

definition body1 :: backfill_body where
  "body1 = \<lparr>req_symbol = Some ''BTCUSDT'', req_exchange = Some ''binance'',
            startTs = JNum 1000, endTs = JNum 10801000\<rparr>"

definition body2 :: backfill_body where
  "body2 = \<lparr>req_symbol = Some ''BTCUSDT'', req_exchange = Some ''kraken'',
            startTs = JUndefined, endTs = JUndefined\<rparr>"





section \<open>Properties of the store\<close>

text \<open>
  Claim C3. Inserting a trade whose id the store already holds does not raise and
  leaves the store, and so what it holds under that id, unchanged. Hence inserting two
  trades of one id in a row gives the store the first insert gave, whatever the store
  held before.
\<close>

theorem insertTrade_idempotent:
  "(id' t \<in> id' ` set db \<longrightarrow>
      insertTrade db t = Inr db \<and>
      (\<forall>db'. insertTrade db t = Inr db' \<longrightarrow> stored db' (id' t) = stored db (id' t))) \<and>
   (id' t' = id' t \<longrightarrow>
      (\<exists>db1. insertTrade db t = Inr db1 \<and> insertTrade db1 t' = Inr db1))"
  by (auto simp: insertTrade_def sql_insert_def)

theorem insertTrade_idempotent_witness:
  "insertTrade
     [\<lparr>id' = ''BTCUSDT-binance-7'', exchange = ''binance'', symbol = ''BTCUSDT'',
       price = 100, qty = 1, side = ''buy'', ts = 5\<rparr>]
     \<lparr>id' = ''BTCUSDT-binance-7'', exchange = ''binance'', symbol = ''BTCUSDT'',
       price = 250, qty = 3, side = ''sell'', ts = 9\<rparr>
   = Inr [\<lparr>id' = ''BTCUSDT-binance-7'', exchange = ''binance'', symbol = ''BTCUSDT'',
       price = 100, qty = 1, side = ''buy'', ts = 5\<rparr>]"
  using insertTrade_idempotent
    [of "\<lparr>id' = ''BTCUSDT-binance-7'', exchange = ''binance'', symbol = ''BTCUSDT'',
           price = 250, qty = 3, side = ''sell'', ts = 9\<rparr>"
        "[\<lparr>id' = ''BTCUSDT-binance-7'', exchange = ''binance'', symbol = ''BTCUSDT'',
           price = 100, qty = 1, side = ''buy'', ts = 5\<rparr>]"]
  by simp

section \<open>Properties of the aggregator\<close>

subsection \<open>The Map of buckets\<close>

lemma Map_get_Map_set: "Map_get (Map_set m k v) k' = (if k' = k then Some v else Map_get m k')"
  by (induction m k v rule: Map_set.induct) auto

lemma keys_Map_set:
  "map fst (Map_set m k v) = (if k \<in> fst ` set m then map fst m else map fst m @ [k])"
  by (induction m k v rule: Map_set.induct) auto

lemma Map_get_Some_mem: "distinct (map fst m) \<Longrightarrow> (k, b) \<in> set m \<longleftrightarrow> Map_get m k = Some b"
  by (induction m k rule: Map_get.induct) (auto simp: rev_image_eqI)

lemma Map_get_None_iff: "Map_get m k = None \<longleftrightarrow> k \<notin> fst ` set m"
  by (induction m k rule: Map_get.induct) auto

lemma set_Map_set:
  "distinct (map fst m) \<Longrightarrow> (k', b) \<in> set (Map_set m k v)
     \<Longrightarrow> (k' = k \<and> b = v) \<or> (k' \<noteq> k \<and> (k', b) \<in> set m)"
  by (induction m k v rule: Map_set.induct) (auto simp: rev_image_eqI split: if_splits)

lemma length_Map_set: "length (Map_set m k v) \<le> Suc (length m)"
  by (induction m k v rule: Map_set.induct) auto

subsection \<open>The aggregation loop\<close>

lemma rowsOfKey_filter: "rowsOfKey bs rows k = filter (\<lambda>r. toFixed8 (bucketPrice (price r) bs) = k) rows"
  by (induction rows) (simp_all add: keyOf_def)

lemma rowsOfKey_snoc:
  "rowsOfKey bs (rows @ [r]) k = (if keyOf bs r = k then rowsOfKey bs rows k @ [r] else rowsOfKey bs rows k)"
  by (simp add: rowsOfKey_filter keyOf_def)

lemma rowsOfKey_empty: "rowsOfKey bs rows k = [] \<longleftrightarrow> k \<notin> keyOf bs ` set rows"
  by (auto simp: rowsOfKey_filter keyOf_def filter_empty_conv)

lemma flSum_snoc: "flSum (xs @ [x]) = js_add (flSum xs) x"
  by (simp add: flSum_def)

lemma filed_Nil: "filed bs [] []"
  by (simp add: filed_def)

lemma filed_addRow:
  assumes "filed bs rows m"
  shows "filed bs (rows @ [r]) (addRow bs m r)"
proof -
  let ?k = "keyOf bs r"
  let ?v = "(case Map_get m ?k of Some b \<Rightarrow> b
             | None \<Rightarrow> \<lparr>bprice = bucketPrice (price r) bs, volume = 0, lastTs = 0\<rparr>)"
  let ?v' = "?v\<lparr>volume := js_add (volume ?v) (qty r), lastTs := max (lastTs ?v) (ts r)\<rparr>"
  have add: "addRow bs m r = Map_set m ?k ?v'"
    by (simp add: addRow_def keyOf_def Let_def)
  from assms have d: "distinct (map fst m)" and ks: "fst ` set m = keyOf bs ` set rows"
    and inv: "\<And>k b. (k, b) \<in> set m \<Longrightarrow>
        bprice b = bucketPrice (price (hd (rowsOfKey bs rows k))) bs \<and>
        volume b = flSum (map qty (rowsOfKey bs rows k))"
    by (auto simp: filed_def)
  have d': "distinct (map fst (addRow bs m r))" unfolding add using d by (simp add: keys_Map_set)
  have "set (map fst (addRow bs m r)) = insert ?k (set (map fst m))"
    unfolding add keys_Map_set by auto
  then have ks': "fst ` set (addRow bs m r) = keyOf bs ` set (rows @ [r])" using ks by auto
  have new: "bprice ?v' = bucketPrice (price (hd (rowsOfKey bs (rows @ [r]) ?k))) bs \<and>
        volume ?v' = flSum (map qty (rowsOfKey bs (rows @ [r]) ?k))"
  proof (cases "Map_get m ?k")
    case None
    then have "rowsOfKey bs rows ?k = []" using ks by (simp add: Map_get_None_iff rowsOfKey_empty)
    with None show ?thesis by (simp add: rowsOfKey_snoc flSum_def)
  next
    case (Some b0)
    then have mem: "(?k, b0) \<in> set m" using d by (simp add: Map_get_Some_mem)
    then have "?k \<in> fst ` set m" by force
    then have ne: "rowsOfKey bs rows ?k \<noteq> []" using ks by (simp add: rowsOfKey_empty)
    from inv[OF mem] Some ne show ?thesis by (simp add: rowsOfKey_snoc flSum_snoc)
  qed
  have "bprice b = bucketPrice (price (hd (rowsOfKey bs (rows @ [r]) k))) bs \<and>
        volume b = flSum (map qty (rowsOfKey bs (rows @ [r]) k))"
    if "(k, b) \<in> set (addRow bs m r)" for k b
  proof -
    from that set_Map_set[OF d, of k b ?k ?v'] consider "k = ?k" "b = ?v'" | "k \<noteq> ?k" "(k, b) \<in> set m"
      unfolding add by blast
    then show ?thesis
    proof cases
      case 1
      with new show ?thesis by simp
    next
      case 2
      with inv[OF 2(2)] show ?thesis by (simp add: rowsOfKey_snoc)
    qed
  qed
  with d' ks' show ?thesis unfolding filed_def by blast
qed

lemma filed_foldl: "filed bs rows (foldl (addRow bs) [] rows)"
proof (induction rows rule: rev_induct)
  case Nil
  show ?case by (simp add: filed_Nil)
next
  case (snoc r rows)
  then show ?case by (simp add: filed_addRow)
qed

lemma bucketsOf_mem:
  assumes "b \<in> set (bucketsOf bs rows)"
  shows "rowsOfKey bs rows (toFixed8 (bprice b)) \<noteq> [] \<and>
         bprice b = bucketPrice (price (hd (rowsOfKey bs rows (toFixed8 (bprice b))))) bs \<and>
         volume b = flSum (map qty (rowsOfKey bs rows (toFixed8 (bprice b))))"
proof -
  let ?m = "foldl (addRow bs) [] rows"
  from assms obtain k where kb: "(k, b) \<in> set ?m" by (auto simp: bucketsOf_def)
  have f: "filed bs rows ?m" by (rule filed_foldl)
  from kb have "k \<in> fst ` set ?m" by force
  with f have ne: "rowsOfKey bs rows k \<noteq> []" by (simp add: filed_def rowsOfKey_empty)
  from f kb have b: "bprice b = bucketPrice (price (hd (rowsOfKey bs rows k))) bs"
    "volume b = flSum (map qty (rowsOfKey bs rows k))"
    by (auto simp: filed_def)
  from ne have "hd (rowsOfKey bs rows k) \<in> set (rowsOfKey bs rows k)" by simp
  then have "toFixed8 (bucketPrice (price (hd (rowsOfKey bs rows k))) bs) = k"
    by (simp add: rowsOfKey_filter)
  with b(1) have "toFixed8 (bprice b) = k" by simp
  with ne b show ?thesis by simp
qed

lemma bucketsOf_complete:
  assumes "r \<in> set rows"
  shows "\<exists>b \<in> set (bucketsOf bs rows). toFixed8 (bprice b) = toFixed8 (bucketPrice (price r) bs)"
proof -
  let ?m = "foldl (addRow bs) [] rows"
  have f: "filed bs rows ?m" by (rule filed_foldl)
  with assms have "keyOf bs r \<in> fst ` set ?m" by (simp add: filed_def)
  then obtain b where kb: "(keyOf bs r, b) \<in> set ?m" by auto
  then have mem: "b \<in> set (bucketsOf bs rows)" by (force simp: bucketsOf_def)
  have "keyOf bs r \<in> keyOf bs ` set rows" using assms by simp
  then have ne: "rowsOfKey bs rows (keyOf bs r) \<noteq> []" by (simp add: rowsOfKey_empty)
  then have "hd (rowsOfKey bs rows (keyOf bs r)) \<in> set (rowsOfKey bs rows (keyOf bs r))" by simp
  then have "toFixed8 (bucketPrice (price (hd (rowsOfKey bs rows (keyOf bs r)))) bs) = keyOf bs r"
    by (simp add: rowsOfKey_filter)
  moreover from f kb have "bprice b = bucketPrice (price (hd (rowsOfKey bs rows (keyOf bs r)))) bs"
    by (auto simp: filed_def)
  ultimately have "toFixed8 (bprice b) = toFixed8 (bucketPrice (price r) bs)" by (simp add: keyOf_def)
  with mem show ?thesis by blast
qed

lemma distinct_keys_bucketsOf: "distinct (map (\<lambda>b. toFixed8 (bprice b)) (bucketsOf bs rows))"
proof -
  let ?m = "foldl (addRow bs) [] rows"
  have f: "filed bs rows ?m" by (rule filed_foldl)
  have "toFixed8 (bprice b) = k" if "(k, b) \<in> set ?m" for k b
  proof -
    from that have "b \<in> set (bucketsOf bs rows)" by (force simp: bucketsOf_def)
    from bucketsOf_mem[OF this] have ne: "rowsOfKey bs rows (toFixed8 (bprice b)) \<noteq> []" by simp
    from that have "k \<in> fst ` set ?m" by force
    with f have nek: "rowsOfKey bs rows k \<noteq> []" by (simp add: filed_def rowsOfKey_empty)
    then have "hd (rowsOfKey bs rows k) \<in> set (rowsOfKey bs rows k)" by simp
    then have "toFixed8 (bucketPrice (price (hd (rowsOfKey bs rows k))) bs) = k"
      by (simp add: rowsOfKey_filter)
    moreover from f that have "bprice b = bucketPrice (price (hd (rowsOfKey bs rows k))) bs"
      by (auto simp: filed_def)
    ultimately show ?thesis by simp
  qed
  then have eq: "map (\<lambda>x. toFixed8 (bprice (snd x))) ?m = map fst ?m"
    by (intro map_cong) auto
  have keys: "map (\<lambda>b. toFixed8 (bprice b)) (bucketsOf bs rows) = map fst ?m"
    unfolding bucketsOf_def map_map comp_def by (rule eq)
  have "distinct (map fst ?m)" using f by (simp add: filed_def)
  then show ?thesis by (simp only: keys)
qed

lemma length_foldl_addRow: "length (foldl (addRow bs) m rows) \<le> length m + length rows"
proof (induction rows arbitrary: m)
  case Nil then show ?case by simp
next
  case (Cons r rows)
  have "length (addRow bs m r) \<le> Suc (length m)" by (simp add: addRow_def Let_def length_Map_set)
  with Cons[of "addRow bs m r"] show ?case by simp
qed

lemma length_bucketsOf: "length (bucketsOf bs rows) \<le> length rows"
  using length_foldl_addRow[of bs "[]" rows] by (simp add: bucketsOf_def)

subsection \<open>Rounding\<close>

lemma bucketPrice_shape:
  assumes "bs \<noteq> 0"
  shows "\<exists>k. bucketPrice x bs = Fin (fl (of_int k * bs)) \<and> \<bar>js_div x bs - of_int k\<bar> \<le> 1 / 2 \<and>
          (\<bar>js_div x bs - of_int k\<bar> = 1 / 2 \<longrightarrow> of_int k = js_div x bs + 1 / 2)"
proof -
  let ?k = "\<lfloor>js_div x bs + 1 / 2\<rfloor>"
  have "bucketPrice x bs = Fin (fl (of_int ?k * bs))"
    using assms by (simp add: bucketPrice_def Math_round_def js_mul_def)
  moreover have "\<bar>js_div x bs - of_int ?k\<bar> \<le> 1 / 2" by linarith
  moreover have "\<bar>js_div x bs - of_int ?k\<bar> = 1 / 2 \<longrightarrow> of_int ?k = js_div x bs + 1 / 2" by linarith
  ultimately show ?thesis by blast
qed

subsection \<open>Cutting the list\<close>

lemma toInteger_le: "0 \<le> x \<Longrightarrow> of_int (toInteger x) \<le> x"
  by (simp add: toInteger_def)

lemma toInteger_nonneg: "0 \<le> x \<Longrightarrow> 0 \<le> toInteger x"
  by (simp add: toInteger_def)

lemma slice0_take: "0 \<le> limit \<Longrightarrow> slice0 xs limit = take (nat (toInteger limit)) xs"
  by (auto simp: slice0_def Let_def toInteger_def min_def)

lemma slice0_is_take: "\<exists>n. slice0 xs limit = take n xs"
  by (auto simp: slice0_def Let_def)

lemma set_slice0: "set (slice0 xs limit) \<subseteq> set xs"
  by (auto simp: slice0_def Let_def dest: in_set_takeD)

lemma slice0_all: "real (length xs) \<le> limit \<Longrightarrow> slice0 xs limit = xs"
proof -
  assume a: "real (length xs) \<le> limit"
  then have "0 \<le> limit" by (meson of_nat_0_le_iff order_trans)
  moreover have "int (length xs) \<le> toInteger limit" using a calculation by (simp add: toInteger_def le_floor_iff)
  ultimately show ?thesis by (simp add: slice0_take)
qed

lemma sorted_slice0: "sorted (map f xs) \<Longrightarrow> sorted (map f (slice0 xs limit))"
  by (simp add: slice0_def Let_def flip: take_map)

lemma computeClusters_eq:
  "computeClusters now db sy ex p bs l =
     slice0 (sort_key (\<lambda>b. - volume b) (bucketsOf (dflt 1 bs) (selectRows db sy ex (now - dflt 3600000 p))))
       (dflt 100 l)"
  by (simp add: computeClusters_def Let_def bucketsOf_def slice0_def)

lemma computeClusters_subset:
  "set (computeClusters now db sy ex p (Some bs) l)
     \<subseteq> set (bucketsOf bs (selectRows db sy ex (now - dflt 3600000 p)))"
  unfolding computeClusters_eq
  using set_slice0[of "sort_key (\<lambda>b. - volume b) (bucketsOf bs (selectRows db sy ex (now - dflt 3600000 p)))" "dflt 100 l"]
  by (simp add: dflt_def)

lemma computeClusters_all:
  assumes "real (length (selectRows db sy ex (now - dflt 3600000 p))) \<le> dflt 100 l"
  shows "set (computeClusters now db sy ex p (Some bs) l)
     = set (bucketsOf bs (selectRows db sy ex (now - dflt 3600000 p)))"
proof -
  let ?rows = "selectRows db sy ex (now - dflt 3600000 p)"
  have "real (length (sort_key (\<lambda>b. - volume b) (bucketsOf bs ?rows))) \<le> dflt 100 l"
    using assms length_bucketsOf[of bs ?rows] by simp
  from slice0_all[OF this] show ?thesis
    unfolding computeClusters_eq by (simp add: dflt_def)
qed

lemma distinct_keys_computeClusters:
  "distinct (map (\<lambda>b. toFixed8 (bprice b)) (computeClusters now db sy ex p bs l))"
proof -
  let ?B = "bucketsOf (dflt 1 bs) (selectRows db sy ex (now - dflt 3600000 p))"
  let ?S = "sort_key (\<lambda>b. - volume b) ?B"
  have "mset (map (\<lambda>b. toFixed8 (bprice b)) ?S) = mset (map (\<lambda>b. toFixed8 (bprice b)) ?B)"
    by simp
  from mset_eq_imp_distinct_iff[OF this]
  have "distinct (map (\<lambda>b. toFixed8 (bprice b)) ?S)"
    using distinct_keys_bucketsOf[of "dflt 1 bs" "selectRows db sy ex (now - dflt 3600000 p)"]
    by blast
  moreover obtain n where "computeClusters now db sy ex p bs l = take n ?S"
    unfolding computeClusters_eq using slice0_is_take by blast
  ultimately show ?thesis by (simp add: distinct_take flip: take_map)
qed

subsection \<open>Evaluated runs\<close>

lemma bucketing_example:
  "computeClusters 1000 bucketingDb ''BTCUSDT'' ''binance'' (Some 500) (Some 1) (Some 50) =
     [\<lparr>bprice = Fin 100, volume = 2, lastTs = 910\<rparr>, \<lparr>bprice = Fin 101, volume = 1, lastTs = 920\<rparr>]"
  by code_simp

lemma tiny_example:
  "computeClusters 1000 tinyDb ''BTCUSDT'' ''binance'' (Some 500) (Some (fl (1 / 10 ^ 9))) (Some 50) =
     [\<lparr>bprice = Fin (fl (1 / 10 ^ 9)), volume = 2, lastTs = 910\<rparr>]"
  by code_simp

lemma ranking_example:
  "computeClusters 1000 rankingDb ''BTCUSDT'' ''binance'' (Some 500) (Some 1) (Some 2) =
     [\<lparr>bprice = Fin 20, volume = 20, lastTs = 910\<rparr>, \<lparr>bprice = Fin 10, volume = 5, lastTs = 900\<rparr>]"
  by code_simp

subsection \<open>Bucketing\<close>

text \<open>
  Claim C4, amended. The bucket price of a trade is \<open>Math.round(price / bucketSize) *
  bucketSize\<close> in double arithmetic: for a bucket size other than zero it is the double
  nearest to \<open>k * bucketSize\<close>, where \<open>k\<close> is the integer nearest to the quotient as
  rounded to a double, the larger one on a tie (away from zero when the quotient is not
  negative). Trades are grouped by their bucket price rendered with 8 fractional
  digits: every bucket returned has at least one selected trade of its key, carries the
  bucket price of the first of them in the order of their timestamps, and the sum of
  the quantities of all of them, added in that order in double arithmetic; no two
  buckets returned have one key; and when the limit does not cut the list, every
  selected trade's key is the key of a bucket returned. For the prices 100.2, 100.4 and
  100.6, quantity 1 each, and bucket size 1 the result is the bucket 100 with volume 2
  followed by the bucket 101 with volume 1.
\<close>

theorem computeClusters_bucketing:
  "(bs \<noteq> 0 \<longrightarrow>
      (\<forall>x. \<exists>k. bucketPrice x bs = Fin (fl (of_int k * bs)) \<and> \<bar>js_div x bs - of_int k\<bar> \<le> 1 / 2 \<and>
         (\<bar>js_div x bs - of_int k\<bar> = 1 / 2 \<longrightarrow> of_int k = js_div x bs + 1 / 2))) \<and>
   (\<forall>b \<in> set (computeClusters now db sy ex p (Some bs) l).
      rowsOfKey bs (selectRows db sy ex (now - dflt 3600000 p)) (toFixed8 (bprice b)) \<noteq> [] \<and>
      bprice b = bucketPrice (price (hd (rowsOfKey bs (selectRows db sy ex (now - dflt 3600000 p))
                                            (toFixed8 (bprice b))))) bs \<and>
      volume b = flSum (map qty (rowsOfKey bs (selectRows db sy ex (now - dflt 3600000 p))
                                    (toFixed8 (bprice b))))) \<and>
   distinct (map (\<lambda>b. toFixed8 (bprice b)) (computeClusters now db sy ex p (Some bs) l)) \<and>
   (real (length (selectRows db sy ex (now - dflt 3600000 p))) \<le> dflt 100 l \<longrightarrow>
      (\<forall>r \<in> set (selectRows db sy ex (now - dflt 3600000 p)).
         \<exists>b \<in> set (computeClusters now db sy ex p (Some bs) l).
           toFixed8 (bprice b) = toFixed8 (bucketPrice (price r) bs))) \<and>
   computeClusters 1000 bucketingDb ''BTCUSDT'' ''binance'' (Some 500) (Some 1) (Some 50) =
     [\<lparr>bprice = Fin 100, volume = 2, lastTs = 910\<rparr>, \<lparr>bprice = Fin 101, volume = 1, lastTs = 920\<rparr>]"
proof -
  let ?rows = "selectRows db sy ex (now - dflt 3600000 p)"
  let ?out = "computeClusters now db sy ex p (Some bs) l"
  have shape: "bs \<noteq> 0 \<longrightarrow>
      (\<forall>x. \<exists>k. bucketPrice x bs = Fin (fl (of_int k * bs)) \<and> \<bar>js_div x bs - of_int k\<bar> \<le> 1 / 2 \<and>
         (\<bar>js_div x bs - of_int k\<bar> = 1 / 2 \<longrightarrow> of_int k = js_div x bs + 1 / 2))"
    using bucketPrice_shape by blast
  have sums: "rowsOfKey bs ?rows (toFixed8 (bprice b)) \<noteq> [] \<and>
      bprice b = bucketPrice (price (hd (rowsOfKey bs ?rows (toFixed8 (bprice b))))) bs \<and>
      volume b = flSum (map qty (rowsOfKey bs ?rows (toFixed8 (bprice b))))"
    if "b \<in> set ?out" for b
  proof -
    from that have "b \<in> set (bucketsOf bs ?rows)" using computeClusters_subset by blast
    then show ?thesis by (rule bucketsOf_mem)
  qed
  have complete: "\<exists>b \<in> set ?out. toFixed8 (bprice b) = toFixed8 (bucketPrice (price r) bs)"
    if small: "real (length ?rows) \<le> dflt 100 l" and r: "r \<in> set ?rows" for r
    using bucketsOf_complete[OF r, of bs] computeClusters_all[OF small, of bs] by simp
  from shape sums complete distinct_keys_computeClusters[of now db sy ex p "Some bs" l] bucketing_example
  show ?thesis by blast
qed

theorem computeClusters_bucketing_witness:
  "map id' (rowsOfKey 1 (selectRows bucketingDb ''BTCUSDT'' ''binance'' (1000 - dflt 3600000 (Some 500)))
      (toFixed8 (Fin 100))) = [''a'', ''b''] \<and>
   Fin 100 = bucketPrice (price (hd (rowsOfKey 1
      (selectRows bucketingDb ''BTCUSDT'' ''binance'' (1000 - dflt 3600000 (Some 500)))
      (toFixed8 (Fin 100))))) 1 \<and>
   2 = flSum (map qty (rowsOfKey 1
      (selectRows bucketingDb ''BTCUSDT'' ''binance'' (1000 - dflt 3600000 (Some 500)))
      (toFixed8 (Fin 100))))"
proof -
  have rows: "map id' (rowsOfKey 1
      (selectRows bucketingDb ''BTCUSDT'' ''binance'' (1000 - dflt 3600000 (Some 500)))
      (toFixed8 (Fin 100))) = [''a'', ''b'']"
    by code_simp
  have mem: "\<lparr>bprice = Fin 100, volume = 2, lastTs = 910\<rparr>
      \<in> set (computeClusters 1000 bucketingDb ''BTCUSDT'' ''binance'' (Some 500) (Some 1) (Some 50))"
    by (simp add: bucketing_example)
  from computeClusters_bucketing [of 1 1000 bucketingDb "''BTCUSDT''" "''binance''" "Some 500" "Some 50"]
  have "\<forall>b \<in> set (computeClusters 1000 bucketingDb ''BTCUSDT'' ''binance'' (Some 500) (Some 1) (Some 50)).
      bprice b = bucketPrice (price (hd (rowsOfKey 1
          (selectRows bucketingDb ''BTCUSDT'' ''binance'' (1000 - dflt 3600000 (Some 500)))
          (toFixed8 (bprice b))))) 1 \<and>
      volume b = flSum (map qty (rowsOfKey 1
          (selectRows bucketingDb ''BTCUSDT'' ''binance'' (1000 - dflt 3600000 (Some 500)))
          (toFixed8 (bprice b))))"
    by blast
  from bspec[OF this mem] rows show ?thesis by simp
qed

text \<open>
  The claim as stated fails in two ways. With a bucket size of \<open>10^-9\<close>, trades at the
  prices \<open>10^-9\<close> and \<open>2 * 10^-9\<close> have different bucket prices, and both render as
  \<open>0.00000000\<close>, so they come back as one bucket, which carries the bucket price of the
  trade of the earlier timestamp. And the integer is the one nearest to the rounded
  quotient, not to the quotient: 0.25 divided by 0.1, both as doubles, is less than
  2.5, the division rounds it to 2.5, and the trade goes to the third bucket of size
  0.1, not to the second.
\<close>

theorem computeClusters_bucketing_counterexample:
  "bucketPrice (fl (1 / 10 ^ 9)) (fl (1 / 10 ^ 9)) = Fin (fl (1 / 10 ^ 9)) \<and>
   bucketPrice (fl (2 / 10 ^ 9)) (fl (1 / 10 ^ 9)) = Fin (fl (2 / 10 ^ 9)) \<and>
   fl (2 / 10 ^ 9) \<noteq> fl (1 / 10 ^ 9) \<and>
   computeClusters 1000 tinyDb ''BTCUSDT'' ''binance'' (Some 500) (Some (fl (1 / 10 ^ 9))) (Some 50) =
     [\<lparr>bprice = Fin (fl (1 / 10 ^ 9)), volume = 2, lastTs = 910\<rparr>] \<and>
   fl (25 / 100) / fl (1 / 10) < 5 / 2 \<and>
   bucketPrice (fl (25 / 100)) (fl (1 / 10)) = Fin (fl (3 * fl (1 / 10)))"
  by code_simp

subsection \<open>Ranking\<close>

text \<open>
  Claim C5. The buckets returned are in descending order of volume. For a limit that is
  not negative (the contract of the aggregator asks for a positive one) their number is
  at most the limit, and they are exactly the highest-volume buckets: the buckets left
  out have no larger volume than any bucket returned, and buckets are left out only
  when the limit is reached. For buckets of volumes 5, 20 and 1 and a limit of 2 the
  result is the bucket of volume 20 followed by the bucket of volume 5.
\<close>

theorem computeClusters_ranked:
  "sorted_wrt (\<lambda>a b. volume b \<le> volume a) (computeClusters now db sy ex p bs l) \<and>
   (0 \<le> dflt 100 l \<longrightarrow>
      real (length (computeClusters now db sy ex p bs l)) \<le> dflt 100 l \<and>
      (\<exists>rest. mset (computeClusters now db sy ex p bs l @ rest)
                 = mset (bucketsOf (dflt 1 bs) (selectRows db sy ex (now - dflt 3600000 p))) \<and>
              (\<forall>b \<in> set (computeClusters now db sy ex p bs l). \<forall>c \<in> set rest. volume c \<le> volume b) \<and>
              (rest = [] \<or> int (length (computeClusters now db sy ex p bs l)) = toInteger (dflt 100 l)))) \<and>
   computeClusters 1000 rankingDb ''BTCUSDT'' ''binance'' (Some 500) (Some 1) (Some 2) =
     [\<lparr>bprice = Fin 20, volume = 20, lastTs = 910\<rparr>, \<lparr>bprice = Fin 10, volume = 5, lastTs = 900\<rparr>]"
proof -
  let ?B = "bucketsOf (dflt 1 bs) (selectRows db sy ex (now - dflt 3600000 p))"
  let ?S = "sort_key (\<lambda>b. - volume b) ?B"
  let ?out = "computeClusters now db sy ex p bs l"
  have out: "?out = slice0 ?S (dflt 100 l)" by (rule computeClusters_eq)
  have srt: "sorted (map (\<lambda>b. - volume b) ?S)" by simp
  then have "sorted (map (\<lambda>b. - volume b) ?out)" unfolding out by (rule sorted_slice0)
  then have desc: "sorted_wrt (\<lambda>a b. volume b \<le> volume a) ?out"
    by (simp add: sorted_map)
  have top: "real (length ?out) \<le> dflt 100 l \<and>
      (\<exists>rest. mset (?out @ rest) = mset ?B \<and>
              (\<forall>b \<in> set ?out. \<forall>c \<in> set rest. volume c \<le> volume b) \<and>
              (rest = [] \<or> int (length ?out) = toInteger (dflt 100 l)))"
    if nn: "0 \<le> dflt 100 l"
  proof -
    let ?n = "nat (toInteger (dflt 100 l))"
    have tk: "?out = take ?n ?S" unfolding out using nn by (rule slice0_take)
    have "real (length ?out) \<le> real ?n" unfolding tk by simp
    also have "\<dots> = of_int (toInteger (dflt 100 l))" using toInteger_nonneg[OF nn] by simp
    also have "\<dots> \<le> dflt 100 l" using toInteger_le[OF nn] .
    finally have len: "real (length ?out) \<le> dflt 100 l" .
    have m: "mset (?out @ drop ?n ?S) = mset ?B" unfolding tk by simp
    have "sorted (map (\<lambda>b. - volume b) (take ?n ?S @ drop ?n ?S))" using srt by simp
    then have ord: "\<forall>b \<in> set ?out. \<forall>c \<in> set (drop ?n ?S). volume c \<le> volume b"
      unfolding tk map_append sorted_append by auto
    have "drop ?n ?S = [] \<or> int (length ?out) = toInteger (dflt 100 l)"
      unfolding tk using toInteger_nonneg[OF nn] by auto
    with len m ord show ?thesis by blast
  qed
  from desc top ranking_example show ?thesis by blast
qed

theorem computeClusters_ranked_witness:
  "(0 :: real) \<le> dflt 100 (Some 2) \<and>
   real (length (computeClusters 1000 rankingDb ''BTCUSDT'' ''binance'' (Some 500) (Some 1) (Some 2))) \<le> 2 \<and>
   sorted_wrt (\<lambda>a b. volume b \<le> volume a)
     (computeClusters 1000 rankingDb ''BTCUSDT'' ''binance'' (Some 500) (Some 1) (Some 2))"
  using computeClusters_ranked [of 1000 rankingDb "''BTCUSDT''" "''binance''" "Some 500" "Some 1" "Some 2"]
  by (simp add: dflt_def)

subsection \<open>Empty selections and the time window\<close>

text \<open>
  Claim C6. When no stored trade has the symbol, the exchange and a timestamp inside
  the window, the aggregator returns the empty list; it has no error result.
\<close>

theorem computeClusters_empty:
  "selectRows db sy ex (now - dflt 3600000 p) = [] \<Longrightarrow> computeClusters now db sy ex p bs l = []"
  by (simp add: computeClusters_def Let_def)

theorem computeClusters_empty_witness:
  "selectRows rankingDb ''BTCUSDT'' ''binance'' (5000 - dflt 3600000 (Some 500)) = [] \<and>
   computeClusters 5000 rankingDb ''BTCUSDT'' ''binance'' (Some 500) (Some 1) (Some 50) = []"
proof -
  have none: "selectRows rankingDb ''BTCUSDT'' ''binance'' (5000 - dflt 3600000 (Some 500)) = []"
    by (simp add: selectRows_def rankingDb_def exTrade_def dflt_def)
  from none computeClusters_empty [OF none] show ?thesis by simp
qed

text \<open>
  Claim C7. A trade whose timestamp is older than \<open>now - periodMs\<close> contributes to no
  bucket: the result for a store that holds such a trade, at any place, is the result
  for the store without it.
\<close>

theorem computeClusters_window:
  "ts t < now - dflt 3600000 p \<Longrightarrow>
     computeClusters now (db1 @ t # db2) sy ex p bs l = computeClusters now (db1 @ db2) sy ex p bs l"
  by (simp add: computeClusters_def Let_def selectRows_def)

theorem computeClusters_window_witness:
  "ts (exTrade ''old'' 100 7 400) < 1000 - dflt 3600000 (Some 500) \<and>
   computeClusters 1000 ([exTrade ''a'' 10 5 900] @ exTrade ''old'' 100 7 400 # [exTrade ''b'' 20 20 910])
     ''BTCUSDT'' ''binance'' (Some 500) (Some 1) (Some 50)
   = computeClusters 1000 ([exTrade ''a'' 10 5 900] @ [exTrade ''b'' 20 20 910])
     ''BTCUSDT'' ''binance'' (Some 500) (Some 1) (Some 50)"
proof -
  have old: "ts (exTrade ''old'' 100 7 400) < 1000 - dflt 3600000 (Some 500)"
    by (simp add: exTrade_def dflt_def)
  from old
    computeClusters_window [OF old, of "[exTrade ''a'' 10 5 900]" "[exTrade ''b'' 20 20 910]"
      "''BTCUSDT''" "''binance''" "Some 1" "Some 50"]
  show ?thesis by blast
qed

section \<open>Properties of the backfill\<close>

subsection \<open>Retries\<close>

lemma retryFrom_shape:
  "\<exists>n \<le> length ds. snd (retryFrom rq f ds k) =
      concat (map (\<lambda>i. [Attempt rq (k + i), Backoff (ds ! i)]) [0..<n]) @ [Attempt rq (k + n)] \<and>
      (\<forall>i < n. f (k + i) = Inl FetchFailed) \<and> fst (retryFrom rq f ds k) = f (k + n) \<and>
      (n < length ds \<longrightarrow> (\<exists>v. f (k + n) = Inr v))"
proof (induction ds arbitrary: k)
  case Nil
  then show ?case by simp
next
  case (Cons d ds)
  show ?case
  proof (cases "f k")
    case (Inr v)
    then show ?thesis by (intro exI[of _ 0]) simp
  next
    case (Inl e)
    then have fk: "f k = Inl FetchFailed" by (cases e) simp
    from Cons.IH[of "Suc k"] obtain n where n: "n \<le> length ds"
      "snd (retryFrom rq f ds (Suc k)) =
         concat (map (\<lambda>i. [Attempt rq (Suc k + i), Backoff (ds ! i)]) [0..<n]) @ [Attempt rq (Suc k + n)]"
      "\<forall>i < n. f (Suc k + i) = Inl FetchFailed" "fst (retryFrom rq f ds (Suc k)) = f (Suc k + n)"
      "n < length ds \<longrightarrow> (\<exists>v. f (Suc k + n) = Inr v)"
      by blast
    have up: "[0..<Suc n] = 0 # map Suc [0..<n]" by (simp add: upt_conv_Cons map_Suc_upt del: upt_Suc)
    have "snd (retryFrom rq f (d # ds) k) =
        concat (map (\<lambda>i. [Attempt rq (k + i), Backoff ((d # ds) ! i)]) [0..<Suc n]) @ [Attempt rq (k + Suc n)]"
      unfolding up using Inl n(2) by (simp add: split_beta comp_def del: upt_Suc)
    moreover have "\<forall>i < Suc n. f (k + i) = Inl FetchFailed"
      using fk n(3) by (auto simp: less_Suc_eq_0_disj)
    moreover have "fst (retryFrom rq f (d # ds) k) = f (k + Suc n)"
      using Inl n(4) by (simp add: split_beta)
    moreover have "Suc n < length (d # ds) \<longrightarrow> (\<exists>v. f (k + Suc n) = Inr v)" using n(5) by simp
    ultimately show ?thesis using n(1) by (intro exI[of _ "Suc n"]) simp
  qed
qed

lemma pRetry_shape:
  "\<exists>n \<le> retries. snd (pRetry rq f retries mt) = retryEvents rq (dflt 1000 mt) 1 n \<and>
      (\<forall>i < n. f (1 + i) = Inl FetchFailed) \<and> fst (pRetry rq f retries mt) = f (1 + n) \<and>
      (n < retries \<longrightarrow> (\<exists>v. f (1 + n) = Inr v))"
proof -
  let ?ds = "timeouts retries (dflt 1000 mt)"
  have len: "length ?ds = retries" by (simp add: timeouts_def)
  from retryFrom_shape[of ?ds rq f 1] obtain n where n: "n \<le> retries"
    "snd (retryFrom rq f ?ds 1) =
        concat (map (\<lambda>i. [Attempt rq (1 + i), Backoff (?ds ! i)]) [0..<n]) @ [Attempt rq (1 + n)]"
    "\<forall>i < n. f (1 + i) = Inl FetchFailed" "fst (retryFrom rq f ?ds 1) = f (1 + n)"
    "n < length ?ds \<longrightarrow> (\<exists>v. f (1 + n) = Inr v)"
    unfolding len by blast
  have eq: "map (\<lambda>i. [Attempt rq (1 + i), Backoff (?ds ! i)]) [0..<n]
      = map (\<lambda>i. [Attempt rq (1 + i), Backoff (dflt 1000 mt * 2 ^ i)]) [0..<n]"
    using n(1) by (intro map_cong) (auto simp: timeouts_def)
  note ev = n(2)[unfolded eq]
  from n(1) ev n(3) n(4) n(5) show ?thesis
    unfolding pRetry_def retryEvents_def len by blast
qed

lemma attempts_retryEvents: "length (filter isAttempt (retryEvents rq mt k n)) = Suc n"
  by (induction n) (simp_all add: retryEvents_def isAttempt_def)

lemma backoff_retryEvents:
  assumes "Backoff d \<in> set (retryEvents rq mt k n)" "0 \<le> mt" shows "mt \<le> d"
proof -
  from assms(1) obtain i where "d = mt * 2 ^ i" by (auto simp: retryEvents_def)
  moreover have "(1::real) \<le> 2 ^ i" by simp
  ultimately show ?thesis using assms(2) by (simp add: mult_le_cancel_left1)
qed

subsection \<open>Inserting a payload\<close>

lemma insertTrade_Inr: "insertTrade d t = Inr (if id' t \<in> id' ` set d then d else d @ [t])"
  by (simp add: insertTrade_def sql_insert_def)

lemma quiet_binanceTrade: "quiet (binanceTrade E sy)"
  by (simp add: quiet_def binanceTrade_def Let_def split_beta now_read_def random_draw_def)

lemma quiet_okxTrade: "quiet (okxTrade E sy)"
  by (simp add: quiet_def okxTrade_def Let_def split_beta now_read_def random_draw_def orElse_def
      split: jsnum.splits)

lemma quiet_bybitTrade: "quiet (bybitTrade E sy)"
  by (simp add: quiet_def bybitTrade_def Let_def split_beta now_read_def random_draw_def)

lemma insertEach_quiet:
  assumes "quiet mk"
  shows "(fst (insertEach mk binds l w) = None \<or> fst (insertEach mk binds l w) = Some TypeError) \<and>
         trace (snd (insertEach mk binds l w)) = trace w \<and>
         set (database w) \<subseteq> set (database (snd (insertEach mk binds l w)))"
proof (induction l arbitrary: w)
  case Nil
  then show ?case by simp
next
  case (Cons t l)
  let ?w1 = "snd (mk t w)" and ?tr = "fst (mk t w)"
  let ?d = "if id' ?tr \<in> id' ` set (database ?w1) then database ?w1 else database ?w1 @ [?tr]"
  have q: "trace ?w1 = trace w" "database ?w1 = database w" using assms by (simp_all add: quiet_def)
  show ?case
  proof (cases "binds t")
    case False
    then have "insertEach mk binds (t # l) w = (Some TypeError, ?w1)" by (simp add: split_beta)
    with q show ?thesis by simp
  next
    case True
    then have step: "insertEach mk binds (t # l) w = insertEach mk binds l (?w1\<lparr>database := ?d\<rparr>)"
      by (simp add: split_beta insertTrade_Inr)
    from Cons.IH[of "?w1\<lparr>database := ?d\<rparr>"] q show ?thesis unfolding step by auto
  qed
qed

lemma trace_emit: "trace (emit evs w) = trace w @ evs"
  by (simp add: emit_def)

lemma database_emit: "database (emit evs w) = database w"
  by (simp add: emit_def)

subsection \<open>One request with its retries\<close>

lemma binanceWindow_invalid:
  "\<not> (validDate s \<and> validDate (min end (s + 3600000 - 1)))
     \<Longrightarrow> binanceWindow E sy end s w = (Some RangeError, w)"
  by (simp add: binanceWindow_def)

lemma binanceWindow_alt:
  assumes "validDate s \<and> validDate (min end (s + 3600000 - 1))"
  shows "binanceWindow E sy end s w =
     (let P = pRetry (binanceRequest sy end s) (binanceFetch E sy end s) 3 (Some 500);
          w1 = emit (snd P) w
      in case fst P of
           Inl err \<Rightarrow> (Some (Rejected err), w1)
         | Inr data \<Rightarrow>
             (let R = (case data of None \<Rightarrow> (None, w1)
                       | Some l \<Rightarrow> insertEach (binanceTrade E sy) binanceBinds l w1)
              in case fst R of
                   Some x \<Rightarrow> (Some x, snd R)
                 | None \<Rightarrow> (None, emit [Pause 300] (snd R))))"
proof -
  have ins: "(if l \<noteq> [] then insertEach (binanceTrade E sy) binanceBinds l w1 else (None, w1))
      = insertEach (binanceTrade E sy) binanceBinds l w1" for l w1
    by simp
  show ?thesis
    unfolding binanceWindow_def binanceRequest_def binanceFetch_def Let_def ins
    using assms by (simp add: split_beta split: sum.splits option.splits)
qed

lemma binanceWindow_shape:
  assumes valid: "validDate s \<and> validDate (min end (s + 3600000 - 1))"
  shows "\<exists>n \<le> 3. \<exists>rest.
      trace (snd (binanceWindow E sy end s w)) =
        trace w @ retryEvents (binanceRequest sy end s) 500 1 n @ rest \<and>
      (rest = [] \<or> rest = [Pause 300]) \<and>
      (\<forall>i < n. binanceFetch E sy end s (1 + i) = Inl FetchFailed) \<and>
      (if binanceFetch E sy end s (1 + n) = Inl FetchFailed
       then n = 3 \<and> rest = [] \<and> binanceWindow E sy end s w =
              (Some (Rejected FetchFailed), emit (retryEvents (binanceRequest sy end s) 500 1 3) w)
       else fst (binanceWindow E sy end s w) \<noteq> Some (Rejected FetchFailed))"
proof -
  let ?rq = "binanceRequest sy end s" and ?f = "binanceFetch E sy end s"
  from pRetry_shape[of 3 ?rq ?f "Some 500"] obtain n where n: "n \<le> 3"
    "snd (pRetry ?rq ?f 3 (Some 500)) = retryEvents ?rq 500 1 n"
    "\<forall>i < n. ?f (1 + i) = Inl FetchFailed" "fst (pRetry ?rq ?f 3 (Some 500)) = ?f (1 + n)"
    "n < 3 \<longrightarrow> (\<exists>v. ?f (1 + n) = Inr v)"
    by (auto simp: dflt_def)
  show ?thesis
  proof (cases "?f (1 + n)")
    case (Inl e)
    then have f: "?f (1 + n) = Inl FetchFailed" by (cases e) simp
    with n(5) n(1) have n3: "n = 3" by (cases "n < 3") auto
    have "binanceWindow E sy end s w = (Some (Rejected FetchFailed), emit (retryEvents ?rq 500 1 3) w)"
      unfolding binanceWindow_alt[OF valid] Let_def using n(2) n(4) f n3 by simp
    with n f n3 show ?thesis
      by (intro exI[of _ n] conjI exI[of _ "[]"]) (simp_all add: trace_emit)
  next
    case (Inr data)
    let ?w1 = "emit (snd (pRetry ?rq ?f 3 (Some 500))) w"
    let ?R = "case data of None \<Rightarrow> (None, ?w1)
              | Some l \<Rightarrow> insertEach (binanceTrade E sy) binanceBinds l ?w1"
    have w1: "trace ?w1 = trace w @ retryEvents ?rq 500 1 n"
      by (simp add: trace_emit n(2))
    have R: "(fst ?R = None \<or> fst ?R = Some TypeError) \<and> trace (snd ?R) = trace ?w1"
      using insertEach_quiet[OF quiet_binanceTrade, of E sy binanceBinds _ ?w1]
      by (cases data) auto
    have P: "fst (pRetry ?rq ?f 3 (Some 500)) = Inr data" using n(4) Inr by simp
    have win: "binanceWindow E sy end s w =
        (case fst ?R of Some x \<Rightarrow> (Some x, snd ?R) | None \<Rightarrow> (None, emit [Pause 300] (snd ?R)))"
      unfolding binanceWindow_alt[OF valid] Let_def P by simp
    from R w1 have "\<exists>rest. trace (snd (binanceWindow E sy end s w)) = trace w @ retryEvents ?rq 500 1 n @ rest \<and>
        (rest = [] \<or> rest = [Pause 300]) \<and>
        fst (binanceWindow E sy end s w) \<noteq> Some (Rejected FetchFailed)"
      unfolding win by (auto simp: trace_emit)
    with n Inr show ?thesis by auto
  qed
qed

lemma okxBackfill_shape:
  "\<exists>n \<le> 2. trace (snd (okxBackfill E sy w)) =
        trace w @ retryEvents (OKXTrades (okxInstId sy) 100) 1000 1 n \<and>
      (fst (okxBackfill E sy w) = Some (Rejected FetchFailed) \<longrightarrow> n = 2)"
proof -
  let ?rq = "OKXTrades (okxInstId sy) 100" and ?f = "fetchOKXTrades E (okxInstId sy) 100"
  from pRetry_shape[of 2 ?rq ?f None] obtain n where n: "n \<le> 2"
    "snd (pRetry ?rq ?f 2 None) = retryEvents ?rq 1000 1 n"
    "fst (pRetry ?rq ?f 2 None) = ?f (1 + n)"
    "n < 2 \<longrightarrow> (\<exists>v. ?f (1 + n) = Inr v)"
    by (auto simp: dflt_def)
  have q: "fst (insertEach (okxTrade E sy) (\<lambda>t. True) l w1) \<noteq> Some (Rejected FetchFailed)"
    "trace (snd (insertEach (okxTrade E sy) (\<lambda>t. True) l w1)) = trace w1" for l w1
    using insertEach_quiet[OF quiet_okxTrade, of E sy "\<lambda>t. True" l w1] by auto
  have tr: "trace (snd (okxBackfill E sy w)) = trace w @ retryEvents ?rq 1000 1 n"
    using n(2) by (simp add: okxBackfill_def Let_def split_beta trace_emit q
        split: sum.splits items.splits)
  have "n = 2" if "fst (okxBackfill E sy w) = Some (Rejected FetchFailed)"
  proof (rule ccontr)
    assume "n \<noteq> 2"
    with n(1) n(4) obtain v where "?f (1 + n) = Inr v" by (cases "n < 2") auto
    with n(3) that show False
      by (auto simp: okxBackfill_def Let_def split_beta q split: items.splits)
  qed
  with tr n(1) show ?thesis by blast
qed

lemma bybitBackfill_shape:
  "\<exists>n \<le> 2. trace (snd (bybitBackfill E sy w)) =
        trace w @ retryEvents (BybitTrades sy 200) 1000 1 n \<and>
      (fst (bybitBackfill E sy w) = Some (Rejected FetchFailed) \<longrightarrow> n = 2)"
proof -
  let ?rq = "BybitTrades sy 200" and ?f = "fetchBybitTrades E sy 200"
  from pRetry_shape[of 2 ?rq ?f None] obtain n where n: "n \<le> 2"
    "snd (pRetry ?rq ?f 2 None) = retryEvents ?rq 1000 1 n"
    "fst (pRetry ?rq ?f 2 None) = ?f (1 + n)"
    "n < 2 \<longrightarrow> (\<exists>v. ?f (1 + n) = Inr v)"
    by (auto simp: dflt_def)
  have q: "fst (insertEach (bybitTrade E sy) bybitBinds l w1) \<noteq> Some (Rejected FetchFailed)"
    "trace (snd (insertEach (bybitTrade E sy) bybitBinds l w1)) = trace w1" for l w1
    using insertEach_quiet[OF quiet_bybitTrade, of E sy bybitBinds l w1] by auto
  have tr: "trace (snd (bybitBackfill E sy w)) = trace w @ retryEvents ?rq 1000 1 n"
    using n(2) by (simp add: bybitBackfill_def Let_def split_beta trace_emit q
        split: sum.splits items.splits)
  have "n = 2" if "fst (bybitBackfill E sy w) = Some (Rejected FetchFailed)"
  proof (rule ccontr)
    assume "n \<noteq> 2"
    with n(1) n(4) obtain v where "?f (1 + n) = Inr v" by (cases "n < 2") auto
    with n(3) that show False
      by (auto simp: bybitBackfill_def Let_def split_beta q split: items.splits)
  qed
  with tr n(1) show ?thesis by blast
qed

text \<open>
  Claim C8, amended. A window of a Binance backfill logs at most four runs of the
  request, one run and up to three retries, with waits of 500, 1000 and 2000 ms between
  them, so of at least 500 ms; the failure surfaces only after the fourth run. (A
  window whose ends are not dates is not requested at all.) The OKX and the Bybit
  backfill log at most three runs, and their failure surfaces only after the third.
\<close>

theorem retry_budget:
  "(if validDate s \<and> validDate (min end (s + 3600000 - 1))
    then (\<exists>n \<le> 3. \<exists>rest.
            trace (snd (binanceWindow E sy end s w)) =
              trace w @ retryEvents (BinanceAggTrades sy s (min end (s + 3600000 - 1)) 1000) 500 1 n @ rest \<and>
            (rest = [] \<or> rest = [Pause 300]) \<and>
            (fst (binanceWindow E sy end s w) = Some (Rejected FetchFailed) \<longrightarrow> n = 3))
    else binanceWindow E sy end s w = (Some RangeError, w)) \<and>
   (\<exists>n \<le> 2.
      trace (snd (okxBackfill E sy w)) = trace w @ retryEvents (OKXTrades (okxInstId sy) 100) 1000 1 n \<and>
      (fst (okxBackfill E sy w) = Some (Rejected FetchFailed) \<longrightarrow> n = 2)) \<and>
   (\<exists>n \<le> 2.
      trace (snd (bybitBackfill E sy w)) = trace w @ retryEvents (BybitTrades sy 200) 1000 1 n \<and>
      (fst (bybitBackfill E sy w) = Some (Rejected FetchFailed) \<longrightarrow> n = 2)) \<and>
   (\<forall>rq mt n. length (filter isAttempt (retryEvents rq mt 1 n)) = Suc n) \<and>
   (\<forall>rq n d. Backoff d \<in> set (retryEvents rq 500 1 n) \<longrightarrow> 500 \<le> d)"
proof -
  have binance: "if validDate s \<and> validDate (min end (s + 3600000 - 1))
    then (\<exists>n \<le> 3. \<exists>rest.
            trace (snd (binanceWindow E sy end s w)) =
              trace w @ retryEvents (BinanceAggTrades sy s (min end (s + 3600000 - 1)) 1000) 500 1 n @ rest \<and>
            (rest = [] \<or> rest = [Pause 300]) \<and>
            (fst (binanceWindow E sy end s w) = Some (Rejected FetchFailed) \<longrightarrow> n = 3))
    else binanceWindow E sy end s w = (Some RangeError, w)"
  proof (cases "validDate s \<and> validDate (min end (s + 3600000 - 1))")
    case False
    show ?thesis unfolding if_not_P[OF False] by (rule binanceWindow_invalid[OF False])
  next
    case True
    from binanceWindow_shape[OF True, of E sy w] obtain n rest where n: "n \<le> 3"
      "trace (snd (binanceWindow E sy end s w)) = trace w @ retryEvents (binanceRequest sy end s) 500 1 n @ rest"
      "rest = [] \<or> rest = [Pause 300]"
      "\<forall>i < n. binanceFetch E sy end s (1 + i) = Inl FetchFailed"
      "if binanceFetch E sy end s (1 + n) = Inl FetchFailed
         then n = 3 \<and> rest = [] \<and> binanceWindow E sy end s w =
                (Some (Rejected FetchFailed), emit (retryEvents (binanceRequest sy end s) 500 1 3) w)
         else fst (binanceWindow E sy end s w) \<noteq> Some (Rejected FetchFailed)"
      by blast
    have "fst (binanceWindow E sy end s w) = Some (Rejected FetchFailed) \<longrightarrow> n = 3"
      using n(5) by (auto split: if_splits)
    with n(1-3) have "\<exists>n \<le> 3. \<exists>rest.
            trace (snd (binanceWindow E sy end s w)) =
              trace w @ retryEvents (BinanceAggTrades sy s (min end (s + 3600000 - 1)) 1000) 500 1 n @ rest \<and>
            (rest = [] \<or> rest = [Pause 300]) \<and>
            (fst (binanceWindow E sy end s w) = Some (Rejected FetchFailed) \<longrightarrow> n = 3)"
      unfolding binanceRequest_def by blast
    then show ?thesis unfolding if_P[OF True] .
  qed
  have delays: "\<forall>rq n d. Backoff d \<in> set (retryEvents rq 500 1 n) \<longrightarrow> 500 \<le> d"
    using backoff_retryEvents[of _ _ 500 1] by auto
  from binance okxBackfill_shape[of E sy w] bybitBackfill_shape[of E sy w] attempts_retryEvents delays
  show ?thesis by blast
qed

theorem retry_budget_witness:
  "\<exists>n \<le> 3. \<exists>rest.
      [Attempt (BinanceAggTrades ''BTCUSDT'' 1000 3600999 1000) 1, Backoff 500,
       Attempt (BinanceAggTrades ''BTCUSDT'' 1000 3600999 1000) 2, Backoff 1000,
       Attempt (BinanceAggTrades ''BTCUSDT'' 1000 3600999 1000) 3, Backoff 2000,
       Attempt (BinanceAggTrades ''BTCUSDT'' 1000 3600999 1000) 4, Pause 300] =
      retryEvents (BinanceAggTrades ''BTCUSDT'' 1000 3600999 1000) 500 1 n @ rest \<and>
      (rest = [] \<or> rest = [Pause 300])"
proof -
  have run: "trace (snd (binanceWindow env2 ''BTCUSDT'' 3601000 1000 world0)) =
      [Attempt (BinanceAggTrades ''BTCUSDT'' 1000 3600999 1000) 1, Backoff 500,
       Attempt (BinanceAggTrades ''BTCUSDT'' 1000 3600999 1000) 2, Backoff 1000,
       Attempt (BinanceAggTrades ''BTCUSDT'' 1000 3600999 1000) 3, Backoff 2000,
       Attempt (BinanceAggTrades ''BTCUSDT'' 1000 3600999 1000) 4, Pause 300]"
    by code_simp
  have e: "min 3601000 (1000 + 3600000 - 1) = (3600999 :: real)" by simp
  have v: "validDate 1000 \<and> validDate (min 3601000 (1000 + 3600000 - 1))" by (simp add: validDate_def)
  note budget = retry_budget [where s = 1000 and ?end = 3601000 and E = env2 and sy = "''BTCUSDT''" and w = world0]
  from budget[THEN conjunct1, unfolded if_P[OF v]]
  have "\<exists>n \<le> 3. \<exists>rest.
            trace (snd (binanceWindow env2 ''BTCUSDT'' 3601000 1000 world0)) =
              trace world0 @ retryEvents (BinanceAggTrades ''BTCUSDT'' 1000 (min 3601000 (1000 + 3600000 - 1)) 1000) 500 1 n @ rest \<and>
            (rest = [] \<or> rest = [Pause 300]) \<and>
            (fst (binanceWindow env2 ''BTCUSDT'' 3601000 1000 world0) = Some (Rejected FetchFailed) \<longrightarrow> n = 3)"
    .
  then show ?thesis unfolding run e by (auto simp: world0_def)
qed

text \<open>
  The claim as stated fails: when the first three runs of a Binance request fail and
  the fourth succeeds, the window completes after four attempts; when the first two
  runs of the OKX request fail and the third succeeds, the backfill completes after
  three attempts.
\<close>

theorem retry_budget_counterexample:
  "fst (binanceWindow env2 ''BTCUSDT'' 3601000 1000 world0) = None \<and>
   length (filter isAttempt (trace (snd (binanceWindow env2 ''BTCUSDT'' 3601000 1000 world0)))) = 4 \<and>
   fst (okxBackfill env2 ''BTCUSDT'' world0) = None \<and>
   length (filter isAttempt (trace (snd (okxBackfill env2 ''BTCUSDT'' world0)))) = 3"
  by code_simp

subsection \<open>The window loop\<close>

lemma binanceWindow_end:
  "min end (s + 3600000 - 1) = min end' (s + 3600000 - 1)
     \<Longrightarrow> binanceWindow E sy end s w = binanceWindow E sy end' s w"
  by (simp add: binanceWindow_def)

lemma binanceWindow_rejected:
  assumes "\<forall>k \<in> {1..4}. binanceFetch E sy end s k = Inl FetchFailed"
  shows "binanceWindow E sy end s w =
           (if validDate s \<and> validDate (min end (s + 3600000 - 1))
            then (Some (Rejected FetchFailed), emit (retryEvents (binanceRequest sy end s) 500 1 3) w)
            else (Some RangeError, w))"
proof (cases "validDate s \<and> validDate (min end (s + 3600000 - 1))")
  case False
  show ?thesis unfolding if_not_P[OF False] by (rule binanceWindow_invalid[OF False])
next
  case True
  from binanceWindow_shape[OF True, of E sy w] obtain n rest where n: "n \<le> 3"
    "trace (snd (binanceWindow E sy end s w)) = trace w @ retryEvents (binanceRequest sy end s) 500 1 n @ rest"
    "rest = [] \<or> rest = [Pause 300]"
    "\<forall>i < n. binanceFetch E sy end s (1 + i) = Inl FetchFailed"
    "if binanceFetch E sy end s (1 + n) = Inl FetchFailed
       then n = 3 \<and> rest = [] \<and> binanceWindow E sy end s w =
              (Some (Rejected FetchFailed), emit (retryEvents (binanceRequest sy end s) 500 1 3) w)
       else fst (binanceWindow E sy end s w) \<noteq> Some (Rejected FetchFailed)"
    by blast
  have "1 + n \<in> {1..4}" using n(1) by simp
  with assms have "binanceFetch E sy end s (1 + n) = Inl FetchFailed" by blast
  with n(5) True show ?thesis by simp
qed

lemma binanceLoop_done: "\<not> s < end \<Longrightarrow> binanceLoop E sy end s w = (None, w)"
  by (simp add: binanceLoop.simps)

lemma binanceLoop_step:
  "s < end \<Longrightarrow> binanceLoop E sy end s w =
     (case fst (binanceWindow E sy end s w) of
        Some x \<Rightarrow> (Some x, snd (binanceWindow E sy end s w))
      | None \<Rightarrow> binanceLoop E sy end (s + 3600000) (snd (binanceWindow E sy end s w)))"
  by (subst binanceLoop.simps) (simp add: split_beta split: option.splits)

lemma binanceLoop_abort:
  assumes "start + of_nat n * 3600000 < end"
    and "\<forall>k \<in> {1..4}. binanceFetch E sy end (start + of_nat n * 3600000) k = Inl FetchFailed"
    and "fst (binanceLoop E sy (start + of_nat n * 3600000) start w) = None"
  shows "binanceLoop E sy end start w =
           (if validDate (start + of_nat n * 3600000) \<and>
               validDate (min end (start + of_nat n * 3600000 + 3600000 - 1))
            then (Some (Rejected FetchFailed),
                  emit (retryEvents (binanceRequest sy end (start + of_nat n * 3600000)) 500 1 3)
                    (snd (binanceLoop E sy (start + of_nat n * 3600000) start w)))
            else (Some RangeError, snd (binanceLoop E sy (start + of_nat n * 3600000) start w)))"
  using assms
proof (induction n arbitrary: start w)
  case 0
  then have lt: "start < end" and fail: "\<forall>k \<in> {1..4}. binanceFetch E sy end start k = Inl FetchFailed"
    by simp_all
  show ?case
    using binanceLoop_step[OF lt, of E sy w] binanceWindow_rejected[OF fail, of w]
    by (simp add: binanceLoop_done)
next
  case (Suc n)
  let ?mid = "start + of_nat (Suc n) * 3600000"
  let ?w1 = "snd (binanceWindow E sy end start w)"
  have shift: "start + 3600000 + of_nat n * 3600000 = ?mid" by (simp add: algebra_simps)
  have lt_mid: "start < ?mid" by (simp add: add_pos_nonneg)
  have lt: "start < end" using lt_mid Suc.prems(1) by linarith
  have "start + 3600000 - 1 < ?mid" by (simp add: add_pos_nonneg algebra_simps)
  then have "min end (start + 3600000 - 1) = min ?mid (start + 3600000 - 1)"
    using Suc.prems(1) by (simp add: min_def)
  then have same: "binanceWindow E sy ?mid start w = binanceWindow E sy end start w"
    by (rule binanceWindow_end[symmetric])
  from Suc.prems(3) have inner:
    "fst (binanceWindow E sy end start w) = None \<and>
     binanceLoop E sy ?mid start w = binanceLoop E sy ?mid (start + 3600000) ?w1"
    unfolding binanceLoop_step[OF lt_mid] same by (cases "fst (binanceWindow E sy end start w)") auto
  then have outer: "binanceLoop E sy end start w = binanceLoop E sy end (start + 3600000) ?w1"
    unfolding binanceLoop_step[OF lt] by simp
  have "binanceLoop E sy end (start + 3600000) ?w1 =
           (if validDate (start + 3600000 + of_nat n * 3600000) \<and>
               validDate (min end (start + 3600000 + of_nat n * 3600000 + 3600000 - 1))
            then (Some (Rejected FetchFailed),
                  emit (retryEvents (binanceRequest sy end (start + 3600000 + of_nat n * 3600000)) 500 1 3)
                    (snd (binanceLoop E sy (start + 3600000 + of_nat n * 3600000) (start + 3600000) ?w1)))
            else (Some RangeError,
                  snd (binanceLoop E sy (start + 3600000 + of_nat n * 3600000) (start + 3600000) ?w1)))"
  proof (rule Suc.IH)
    show "start + 3600000 + of_nat n * 3600000 < end" unfolding shift by (rule Suc.prems(1))
    show "\<forall>k \<in> {1..4}. binanceFetch E sy end (start + 3600000 + of_nat n * 3600000) k = Inl FetchFailed"
      unfolding shift by (rule Suc.prems(2))
    show "fst (binanceLoop E sy (start + 3600000 + of_nat n * 3600000) (start + 3600000) ?w1) = None"
      unfolding shift using Suc.prems(3) inner by simp
  qed
  then show ?case unfolding shift outer using inner by simp
qed

lemma binanceLoop_fails:
  assumes "start + of_nat n * 3600000 < end"
    and "\<forall>k \<in> {1..4}. binanceFetch E sy end (start + of_nat n * 3600000) k = Inl FetchFailed"
  shows "fst (binanceLoop E sy end start w) \<noteq> None"
  using assms
proof (induction n arbitrary: start w)
  case 0
  then have lt: "start < end" and fail: "\<forall>k \<in> {1..4}. binanceFetch E sy end start k = Inl FetchFailed"
    by simp_all
  show ?case
    using binanceLoop_step[OF lt, of E sy w] binanceWindow_rejected[OF fail, of w]
    by (simp split: if_splits)
next
  case (Suc n)
  have shift: "start + 3600000 + of_nat n * 3600000 = start + of_nat (Suc n) * 3600000"
    by (simp add: algebra_simps)
  have "start < start + of_nat (Suc n) * 3600000" by (simp add: add_pos_nonneg)
  then have lt: "start < end" using Suc.prems(1) by linarith
  show ?case
  proof (cases "fst (binanceWindow E sy end start w)")
    case (Some x)
    then show ?thesis using binanceLoop_step[OF lt, of E sy w] by simp
  next
    case None
    have "fst (binanceLoop E sy end (start + 3600000) (snd (binanceWindow E sy end start w))) \<noteq> None"
      by (rule Suc.IH) (use Suc.prems in \<open>simp_all only: shift\<close>)
    then show ?thesis using binanceLoop_step[OF lt, of E sy w] None by simp
  qed
qed

lemma loop1: "binanceLoop env1 ''BTCUSDT'' 3601000 1000 world0 =
    (None, \<lparr>database = [tradeA], clockReads = 0, randomDraws = 0,
            trace = [Attempt (BinanceAggTrades ''BTCUSDT'' 1000 3600999 1000) 1, Pause 300]\<rparr>)"
  by code_simp

lemma range1: "backfillRange env1 body1 world0 = ((1000, 10801000), world0)"
  by code_simp

text \<open>
  Claim C1, amended. When, during a Binance backfill, every run of the request of one
  window fails, the handler answers with a server error. When the windows before it
  complete, the backfill stops at that window: the store is the store the windows
  before it left, and the log ends with the four failed runs of that window (or, for a
  window whose ends are not dates, without any run), so no later window is requested.
\<close>

theorem backfill_window_failure:
  assumes "req_symbol b = Some sy" "sy \<noteq> []" "req_exchange b = Some ''binance''"
    and "backfillRange E b w = ((start, end), w1)"
    and "start + of_nat n * 3600000 < end"
    and "\<forall>k \<in> {1..4}. fetchBinanceAggTrades E sy (start + of_nat n * 3600000)
            (min end (start + of_nat n * 3600000 + 3600000 - 1)) 1000 k = Inl FetchFailed"
  shows "fst (backfill E b w) = ServerError \<and>
         (fst (binanceLoop E sy (start + of_nat n * 3600000) start w1) = None \<longrightarrow>
            backfill E b w =
              (ServerError,
               if validDate (start + of_nat n * 3600000) \<and>
                  validDate (min end (start + of_nat n * 3600000 + 3600000 - 1))
               then emit (retryEvents (BinanceAggTrades sy (start + of_nat n * 3600000)
                                    (min end (start + of_nat n * 3600000 + 3600000 - 1)) 1000) 500 1 3)
                      (snd (binanceLoop E sy (start + of_nat n * 3600000) start w1))
               else snd (binanceLoop E sy (start + of_nat n * 3600000) start w1)) \<and>
            database (snd (backfill E b w)) =
              database (snd (binanceLoop E sy (start + of_nat n * 3600000) start w1)))"
proof -
  have fail: "\<forall>k \<in> {1..4}. binanceFetch E sy end (start + of_nat n * 3600000) k = Inl FetchFailed"
    using assms(6) by (simp add: binanceFetch_def)
  have run: "backfill E b w =
      (case fst (binanceLoop E sy end start w1) of None \<Rightarrow> Ok | Some e \<Rightarrow> ServerError,
       snd (binanceLoop E sy end start w1))"
    using assms(1-4) by (simp add: backfill_def split_beta split: option.splits)
  from binanceLoop_fails[OF assms(5) fail, of w1] have error: "fst (backfill E b w) = ServerError"
    unfolding run by (cases "fst (binanceLoop E sy end start w1)") simp_all
  have stop: "backfill E b w =
              (ServerError,
               if validDate (start + of_nat n * 3600000) \<and>
                  validDate (min end (start + of_nat n * 3600000 + 3600000 - 1))
               then emit (retryEvents (BinanceAggTrades sy (start + of_nat n * 3600000)
                                    (min end (start + of_nat n * 3600000 + 3600000 - 1)) 1000) 500 1 3)
                      (snd (binanceLoop E sy (start + of_nat n * 3600000) start w1))
               else snd (binanceLoop E sy (start + of_nat n * 3600000) start w1)) \<and>
            database (snd (backfill E b w)) =
              database (snd (binanceLoop E sy (start + of_nat n * 3600000) start w1))"
    if before: "fst (binanceLoop E sy (start + of_nat n * 3600000) start w1) = None"
    unfolding run binanceLoop_abort[OF assms(5) fail before]
    by (simp add: binanceRequest_def database_emit)
  from error stop show ?thesis by blast
qed

theorem backfill_window_failure_witness:
  "fst (backfill env1 body1 world0) = ServerError \<and>
   backfill env1 body1 world0 =
     (ServerError,
      emit (retryEvents (BinanceAggTrades ''BTCUSDT'' 3601000 7200999 1000) 500 1 3)
        (snd (binanceLoop env1 ''BTCUSDT'' 3601000 1000 world0))) \<and>
   database (snd (backfill env1 body1 world0)) = [tradeA]"
proof -
  have fail: "\<forall>k \<in> {1..4}. fetchBinanceAggTrades env1 ''BTCUSDT'' (1000 + of_nat 1 * 3600000)
            (min 10801000 (1000 + of_nat 1 * 3600000 + 3600000 - 1)) 1000 k = Inl FetchFailed"
    by (simp add: env1_def)
  have before: "fst (binanceLoop env1 ''BTCUSDT'' (1000 + of_nat 1 * 3600000) 1000 world0) = None"
    by (simp add: loop1)
  have "req_symbol body1 = Some ''BTCUSDT''" "''BTCUSDT'' \<noteq> []" "req_exchange body1 = Some ''binance''"
    "1000 + of_nat 1 * 3600000 < (10801000 :: real)"
    by (simp_all add: body1_def)
  from backfill_window_failure [OF this(1-3) range1 this(4) fail] before
  show ?thesis by (simp add: loop1 database_emit validDate_def)
qed

text \<open>
  The claim as stated fails: with three windows of which the second fails at all four
  runs, the handler answers with a server error, and the trade the third window would
  have returned is not in the store.
\<close>

theorem backfill_window_failure_counterexample:
  "fetchBinanceAggTrades env1 ''BTCUSDT'' 3601000 7200999 1000 1 = Inl FetchFailed \<and>
   fetchBinanceAggTrades env1 ''BTCUSDT'' 3601000 7200999 1000 2 = Inl FetchFailed \<and>
   fetchBinanceAggTrades env1 ''BTCUSDT'' 3601000 7200999 1000 3 = Inl FetchFailed \<and>
   fetchBinanceAggTrades env1 ''BTCUSDT'' 3601000 7200999 1000 4 = Inl FetchFailed \<and>
   fetchBinanceAggTrades env1 ''BTCUSDT'' 7201000 10800999 1000 1 = Inr (Some [rawC]) \<and>
   fst (binanceTrade env1 ''BTCUSDT'' rawC world0) = tradeC \<and>
   fst (backfill env1 body1 world0) = ServerError \<and>
   database (snd (backfill env1 body1 world0)) = [tradeA] \<and>
   tradeC \<notin> set (database (snd (backfill env1 body1 world0)))"
  by code_simp

subsection \<open>Exchanges without a connector\<close>

text \<open>
  Claim C2, amended. A backfill request with a symbol and with an exchange that is none
  of \<open>binance\<close>, \<open>okx\<close> and \<open>bybit\<close> runs no branch: the handler answers with success,
  no request is made and the store is unchanged. A request is rejected (status 400)
  exactly when its symbol or its exchange is missing or empty.
\<close>

theorem backfill_unknown_exchange:
  assumes "req_symbol b = Some sy" "sy \<noteq> []" "req_exchange b = Some ex" "ex \<noteq> []"
    and "ex \<noteq> ''binance''" "ex \<noteq> ''okx''" "ex \<noteq> ''bybit''"
  shows "fst (backfill E b w) = Ok \<and>
         database (snd (backfill E b w)) = database w \<and>
         trace (snd (backfill E b w)) = trace w \<and>
         (\<forall>b' w'. (fst (backfill E b' w') = BadRequest) =
            (req_symbol b' = None \<or> req_symbol b' = Some [] \<or>
             req_exchange b' = None \<or> req_exchange b' = Some []))"
proof -
  have ok: "fst (backfill E b w) = Ok \<and> database (snd (backfill E b w)) = database w \<and>
         trace (snd (backfill E b w)) = trace w"
    using assms
    by (simp add: backfill_def backfillRange_def orElse_def now_read_def Let_def split_beta
        split: jsnum.splits)
  have "(fst (backfill E b' w') = BadRequest) =
            (req_symbol b' = None \<or> req_symbol b' = Some [] \<or>
             req_exchange b' = None \<or> req_exchange b' = Some [])" for b' w'
    by (simp add: backfill_def Let_def split_beta split: option.splits)
  with ok show ?thesis by blast
qed

theorem backfill_unknown_exchange_witness:
  "fst (backfill env1 body2 world0) = Ok \<and> database (snd (backfill env1 body2 world0)) = [] \<and>
   trace (snd (backfill env1 body2 world0)) = []"
proof -
  have "req_symbol body2 = Some ''BTCUSDT''" "''BTCUSDT'' \<noteq> []" "req_exchange body2 = Some ''kraken''"
    "''kraken'' \<noteq> []" "''kraken'' \<noteq> ''binance''" "''kraken'' \<noteq> ''okx''" "''kraken'' \<noteq> ''bybit''"
    by (simp_all add: body2_def)
  from backfill_unknown_exchange [OF this, of env1 world0] show ?thesis by (simp add: world0_def)
qed

text \<open>The claim as stated fails: a backfill for the exchange \<open>kraken\<close> is answered with
  success.\<close>

theorem backfill_unknown_exchange_counterexample:
  "req_exchange body2 = Some ''kraken'' \<and> fst (backfill env1 body2 world0) = Ok"
  by code_simp

subsection \<open>Sides\<close>

text \<open>
  Claim C9. The side of a normalised trade is \<open>sell\<close> exactly when the Binance field
  \<open>m\<close> is the boolean \<open>true\<close>, when the OKX field \<open>side\<close> is the string \<open>sell\<close> or \<open>S\<close>,
  and when the Bybit field \<open>side\<close> is the string \<open>Sell\<close>; every other value, of any
  type or letter case, gives \<open>buy\<close>.
\<close>

theorem side_normalization:
  "side (fst (binanceTrade E sy tb w)) = (if b_m tb = JBool True then ''sell'' else ''buy'') \<and>
   side (fst (okxTrade E sy to w)) =
     (if o_side to = JStr ''sell'' \<or> o_side to = JStr ''S'' then ''sell'' else ''buy'') \<and>
   side (fst (bybitTrade E sy ty w)) = (if y_side ty = JStr ''Sell'' then ''sell'' else ''buy'')"
  by (simp add: binanceTrade_def okxTrade_def bybitTrade_def Let_def split_beta)

theorem side_normalization_witness:
  "side (fst (binanceTrade env1 ''BTCUSDT'' rawA world0)) = ''sell'' \<and>
   side (fst (binanceTrade env1 ''BTCUSDT'' (rawA\<lparr>b_m := JStr ''true''\<rparr>) world0)) = ''buy'' \<and>
   side (fst (okxTrade env1 ''BTCUSDT''
      \<lparr>o_ts = JStr ''1700000000000'', o_tradeId = JUndefined, o_p = JStr ''100'', o_sz = JStr ''1'',
       o_qty = JUndefined, o_side = JStr ''SELL''\<rparr> world0)) = ''buy'' \<and>
   side (fst (bybitTrade env1 ''BTCUSDT''
      \<lparr>y_trade_time_ms = JNum 1700000000000, y_price = JNum 100, y_qty = JNum 1, y_size = JUndefined,
       y_side = JStr ''Sell''\<rparr> world0)) = ''sell''"
  using side_normalization [of env1 "''BTCUSDT''" rawA world0]
    side_normalization [of env1 "''BTCUSDT''" "rawA\<lparr>b_m := JStr ''true''\<rparr>" world0
      "\<lparr>o_ts = JStr ''1700000000000'', o_tradeId = JUndefined, o_p = JStr ''100'', o_sz = JStr ''1'',
       o_qty = JUndefined, o_side = JStr ''SELL''\<rparr>"
      "\<lparr>y_trade_time_ms = JNum 1700000000000, y_price = JNum 100, y_qty = JNum 1, y_size = JUndefined,
       y_side = JStr ''Sell''\<rparr>"]
  by (simp add: rawA_def)

section \<open>Defaults at the HTTP boundary\<close>




end
